theory Spec2Isabelle
  imports Complex_Main "HOL-Library.Multiset"
begin

section \<open>The arbiter of \<^verbatim>\<open>arbiter.go\<close>: data model\<close>

text \<open>
  The arbiter referees a two-player game between two external programs.  The game engine
  (package \<^verbatim>\<open>ayu\<close>) is not part of the sources; the arbiter uses it only through
  the interfaces \<^verbatim>\<open>GameState\<close> and \<^verbatim>\<open>Game\<close> (lines 18-30), so the
  engine is a parameter of every definition below: a record of the interface's methods
  over a state type \<open>'s\<close> and a move type \<open>'m\<close>.

  \<^item> \<open>Execute\<close> mutates the Go state and returns a bool: here it returns the bool and
    the state it leaves behind (nothing is assumed about the state a rejected move leaves).
  \<^item> \<open>Stringer\<close> is \<^verbatim>\<open>move.(fmt.Stringer).String()\<close>: \<open>None\<close> when the move
    value does not implement \<^verbatim>\<open>fmt.Stringer\<close> (the type assertion panics).
  \<^item> \<open>WriteLog\<close> only feeds the optional log file, which is not modelled.
\<close>

record ('s, 'm) engine =
  CreateState :: "'s"
  Over :: "'s \<Rightarrow> bool"
  Next :: "'s \<Rightarrow> int"
  ListMoves :: "'s \<Rightarrow> 'm list"
  Execute :: "'s \<Rightarrow> 'm \<Rightarrow> bool \<times> 's"
  Scores :: "'s \<Rightarrow> int \<times> int"
  ParseMove :: "string \<Rightarrow> 'm option"
  Stringer :: "'m \<Rightarrow> string option"

text \<open>
  Go arrays of length two (\<^verbatim>\<open>[2]int\<close>, \<^verbatim>\<open>[2]bool\<close>, ...) are pairs, read and
  written by index 0 or 1.  Every index that reaches \<open>get2\<close> or \<open>set2\<close> below has
  been checked to be 0 or 1 (or is a loop index over the array).
\<close>

definition get2 :: "'a \<times> 'a \<Rightarrow> nat \<Rightarrow> 'a" where
  "get2 a i = (if i = 0 then fst a else snd a)"

definition set2 :: "'a \<times> 'a \<Rightarrow> nat \<Rightarrow> 'a \<Rightarrow> 'a \<times> 'a" where
  "set2 a i v = (if i = 0 then (v, snd a) else (fst a, v))"

text \<open>
  \<^verbatim>\<open>type Result struct\<close> (lines 48-54).  Player indices are slice indices, hence
  natural numbers.  The type \<open>'t\<close> stands for \<^verbatim>\<open>float64\<close>: times are only added,
  compared and divided, and these operations are left uninterpreted (the syntactic
  classes \<open>zero\<close>, \<open>plus\<close>, \<open>ord\<close>, \<open>inverse\<close>), so nothing below depends
  on how floating-point arithmetic rounds.
\<close>

record 't Result =
  player :: "nat \<times> nat"
  score :: "int \<times> int"
  failed :: "bool \<times> bool"
  points :: "int \<times> int"
  time :: "'t \<times> 't"

text \<open>The runtime panics the arbiter can raise; a panic ends the whole process.\<close>

datatype panic =
    NilDereference          \<comment> \<open>method call on a nil writer, reader or \<^verbatim>\<open>*exec.Cmd\<close>\<close>
  | IndexOutOfRange         \<comment> \<open>array or slice index out of range\<close>
  | IntnInvalidArgument     \<comment> \<open>\<^verbatim>\<open>rand.Intn(0)\<close>\<close>
  | InvalidMoveGenerated    \<comment> \<open>\<^verbatim>\<open>panic("Invalid move generated!")\<close>, line 145\<close>
  | NotAStringer            \<comment> \<open>failed type assertion \<^verbatim>\<open>move.(fmt.Stringer)\<close>\<close>
  | SliceBoundsOutOfRange   \<comment> \<open>\<^verbatim>\<open>line[0 : len(line)-1]\<close> on an empty line\<close>
  | MakeSliceLenOutOfRange  \<comment> \<open>\<^verbatim>\<open>make([]Result, n)\<close> with \<open>n\<close> negative or too large\<close>

section \<open>The outside world\<close>

text \<open>
  Everything the arbiter does to the outside is recorded as an event, in order.  The
  outside world answers each call as a function of the events so far, so a player's
  answers may depend on everything that was sent to it.
\<close>

datatype event =
    Spawn nat bool               \<comment> \<open>\<^verbatim>\<open>runPlayer\<close> for a slot, and whether it succeeded\<close>
  | Write nat string bool        \<comment> \<open>\<^verbatim>\<open>fmt.Fprintln\<close> of a line to a slot's stdin, and whether it succeeded\<close>
  | Read nat "string option"     \<comment> \<open>\<^verbatim>\<open>ReadString\<close> from a slot's stdout; \<open>None\<close> is an error\<close>
  | Intn nat nat                 \<comment> \<open>\<^verbatim>\<open>rand.Intn(n)\<close> and its result\<close>
  | Close nat                    \<comment> \<open>\<^verbatim>\<open>Close\<close> of a slot's stdin\<close>
  | Wait nat                     \<comment> \<open>\<^verbatim>\<open>cmd.Wait()\<close> for a slot's process\<close>

text \<open>
  What the operating system answers to \<^verbatim>\<open>runPlayer\<close> for one slot: each field says
  whether the call succeeds.
\<close>

record os_env =
  lookPath :: "string \<Rightarrow> string option"
  getwd :: "string option"
  stdinPipe :: bool
  stdoutPipe :: bool
  create :: "string \<Rightarrow> bool"
  start :: bool

text \<open>
  \<^item> \<open>readString\<close>: the result of \<^verbatim>\<open>ReadString('\n')\<close> on a slot (\<open>None\<close> for an
    error, otherwise the line with its delimiter) and the seconds the read took.  A read
    that blocks forever is not a value of this model.
  \<^item> \<open>fprintln\<close>: whether writing a line to a slot's stdin succeeds.
  \<^item> \<open>randSource\<close>: the random source; \<^verbatim>\<open>rand.Intn(n)\<close> is its value modulo \<open>n\<close>,
    which is in \<open>[0, n)\<close> as the library promises.
\<close>

record 't world =
  os :: "nat \<Rightarrow> os_env"
  readString :: "event list \<Rightarrow> nat \<Rightarrow> string option \<times> 't"
  fprintln :: "event list \<Rightarrow> nat \<Rightarrow> string \<Rightarrow> bool"
  randSource :: "event list \<Rightarrow> nat"

section \<open>\<^verbatim>\<open>runPlayer\<close> (lines 80-111)\<close>

text \<open>
  A Go string is a sequence of bytes, and so is a \<open>string\<close> here.  \<^verbatim>\<open>strings.Fields\<close>
  (line 81) reads the bytes as UTF-8 and splits at the characters for which
  \<^verbatim>\<open>unicode.IsSpace\<close> holds: the six of ASCII (tab, line feed, vertical tab, form feed,
  carriage return, space) and U+0085, U+00A0, U+1680, U+2000 to U+200A, U+2028, U+2029,
  U+202F, U+205F and U+3000, which take two or three bytes each.  A byte that is not part
  of a well-formed character is decoded as a character of its own, and the first byte of
  a white-space character is never a later byte of another character; so the decoder,
  which steps from character to character, finds a white-space character exactly where
  its bytes stand, and the model steps from byte to byte.
\<close>

definition isSpace :: "char \<Rightarrow> bool" where
  "isSpace c = (c = CHR 0x09 \<or> c = CHR 0x0A \<or> c = CHR 0x0B \<or> c = CHR 0x0C \<or> c = CHR 0x0D \<or> c = CHR '' '')"

definition unicodeSpaces :: "string list" where
  "unicodeSpaces =
     [[CHR 0xC2, CHR 0x85], [CHR 0xC2, CHR 0xA0], [CHR 0xE1, CHR 0x9A, CHR 0x80],
      [CHR 0xE2, CHR 0x80, CHR 0x80], [CHR 0xE2, CHR 0x80, CHR 0x81], [CHR 0xE2, CHR 0x80, CHR 0x82],
      [CHR 0xE2, CHR 0x80, CHR 0x83], [CHR 0xE2, CHR 0x80, CHR 0x84], [CHR 0xE2, CHR 0x80, CHR 0x85],
      [CHR 0xE2, CHR 0x80, CHR 0x86], [CHR 0xE2, CHR 0x80, CHR 0x87], [CHR 0xE2, CHR 0x80, CHR 0x88],
      [CHR 0xE2, CHR 0x80, CHR 0x89], [CHR 0xE2, CHR 0x80, CHR 0x8A], [CHR 0xE2, CHR 0x80, CHR 0xA8],
      [CHR 0xE2, CHR 0x80, CHR 0xA9], [CHR 0xE2, CHR 0x80, CHR 0xAF], [CHR 0xE2, CHR 0x81, CHR 0x9F],
      [CHR 0xE3, CHR 0x80, CHR 0x80]]"

text \<open>The number of bytes of the white-space character that \<open>s\<close> starts with, or 0.\<close>

definition spaceWidth :: "string \<Rightarrow> nat" where
  "spaceWidth s =
     (case s of
        [] \<Rightarrow> 0
      | c # cs \<Rightarrow>
          if isSpace c then 1
          else (case filter (\<lambda>u. take (length u) s = u) unicodeSpaces of
                  [] \<Rightarrow> 0
                | u # us \<Rightarrow> length u))"

text \<open>The bytes of \<open>s\<close> before its first white-space character.\<close>

fun fieldOf :: "string \<Rightarrow> string" where
  "fieldOf [] = []"
| "fieldOf (c # cs) = (if 0 < spaceWidth (c # cs) then [] else c # fieldOf cs)"

function Fields :: "string \<Rightarrow> string list" where
  "Fields [] = []"
| "Fields (c # cs) =
     (if 0 < spaceWidth (c # cs) then Fields (drop (spaceWidth (c # cs) - 1) cs)
      else (c # fieldOf cs) # Fields (drop (length (fieldOf cs)) cs))"
  by pat_completeness auto
termination
  by (relation "measure length") auto

declare Fields.simps [simp del]

datatype spawn_error =
  ErrInvalid | LookPathError | GetwdError | StdinPipeError | StdoutPipeError | StartError

text \<open>Where the player's standard error goes (lines 94-104).\<close>

datatype stderr_dest = Discarded | ArbiterStderr | MsgFile string

text \<open>
  On success \<^verbatim>\<open>runPlayer\<close> returns the command and its two pipes; the model returns
  what distinguishes the started process, the destination of its standard error.
\<close>

definition runPlayer :: "os_env \<Rightarrow> string \<Rightarrow> string \<Rightarrow> spawn_error + stderr_dest" where
  "runPlayer e command msgPath =
     (let argv = Fields command in
      if argv = [] then Inl ErrInvalid
      else if lookPath e (hd argv) = None then Inl LookPathError
      else if getwd e = None then Inl GetwdError
      else if \<not> stdinPipe e then Inl StdinPipeError
      else if \<not> stdoutPipe e then Inl StdoutPipeError
      else
        let dest =
          (if msgPath = ''-'' then ArbiterStderr
           else if msgPath \<noteq> '''' then
             (if create e msgPath then MsgFile msgPath else ArbiterStderr)
           else Discarded)
        in if \<not> start e then Inl StartError else Inr dest)"

section \<open>\<^verbatim>\<open>runMatch\<close> (lines 113-235)\<close>

text \<open>
  The local variables of \<^verbatim>\<open>runMatch\<close>.  \<open>procs\<close> stands for the three arrays
  \<^verbatim>\<open>cmds\<close>, \<^verbatim>\<open>writers\<close> and \<^verbatim>\<open>readers\<close>, which lines 125-127 set together:
  \<open>True\<close> when the slot's entries are non-nil.  \<open>mfailed\<close> and \<open>mtime\<close> are the
  fields \<^verbatim>\<open>failed\<close> and \<^verbatim>\<open>time\<close> of \<^verbatim>\<open>result\<close>, which the loop updates.
\<close>

record ('s, 't) mstate =
  gamestate :: "'s"
  over :: bool
  mfailed :: "bool \<times> bool"
  mtime :: "'t \<times> 't"
  procs :: "bool \<times> bool"
  trace :: "event list"

text \<open>A step either panics, which is recorded with the events up to the panic, or goes on.\<close>

type_synonym 'a outcome = "panic \<times> event list + 'a"

text \<open>Lines 120-133, one iteration of \<^verbatim>\<open>for i := range players\<close>.\<close>

definition startPlayer ::
  "'t world \<Rightarrow> string \<times> string \<Rightarrow> string \<times> string \<Rightarrow> nat \<Rightarrow> ('s, 't) mstate \<Rightarrow> ('s, 't) mstate" where
  "startPlayer w commands msgPath i st =
     (case runPlayer (os w i) (get2 commands i) (get2 msgPath i) of
        Inl err \<Rightarrow> st\<lparr>mfailed := set2 (mfailed st) i True, trace := trace st @ [Spawn i False]\<rparr>
      | Inr dest \<Rightarrow>
          (let st1 = st\<lparr>procs := set2 (procs st) i True, trace := trace st @ [Spawn i True]\<rparr>
           in if i = 0
              then st1\<lparr>trace := trace st1 @ [Write i ''Start'' (fprintln w (trace st1) i ''Start'')]\<rparr>
              else st1))"

text \<open>Lines 141-148: the player failed before, so a random legal move is played.\<close>

definition fallbackMove ::
  "('s, 'm) engine \<Rightarrow> 't world \<Rightarrow> ('s, 't) mstate \<Rightarrow> (string \<times> ('s, 't) mstate) outcome" where
  "fallbackMove eng w st =
     (let moves = ListMoves eng (gamestate st) in
      if moves = [] then Inl (IntnInvalidArgument, trace st)
      else
        let k = randSource w (trace st) mod length moves;
            tr1 = trace st @ [Intn (length moves) k];
            move = moves ! k;
            (ok, gs) = Execute eng (gamestate st) move
        in if \<not> ok then Inl (InvalidMoveGenerated, tr1)
           else
             (case Stringer eng move of
                None \<Rightarrow> Inl (NotAStringer, tr1)
              | Some moveStr \<Rightarrow>
                  Inr (moveStr, st\<lparr>gamestate := gs, over := Over eng gs, trace := tr1\<rparr>)))"

text \<open>
  Lines 158-168: a line was read from the client \<open>p\<close> without error.  Its last
  character (the delimiter) is cut off, the rest is parsed and the move executed.
\<close>

definition playLine ::
  "('s, 'm) engine \<Rightarrow> nat \<Rightarrow> string \<Rightarrow> ('s, 't) mstate \<Rightarrow> (string \<times> ('s, 't) mstate) outcome" where
  "playLine eng p line st =
     (if line = [] then Inl (SliceBoundsOutOfRange, trace st)
      else
        (case ParseMove eng (butlast line) of
           None \<Rightarrow> Inr ('''', st\<lparr>mfailed := set2 (mfailed st) p True\<rparr>)
         | Some move \<Rightarrow>
             let (ok, gs) = Execute eng (gamestate st) move
             in if \<not> ok
                then Inr ('''', st\<lparr>gamestate := gs, mfailed := set2 (mfailed st) p True\<rparr>)
                else
                  (case Stringer eng move of
                     None \<Rightarrow> Inl (NotAStringer, trace st)
                   | Some moveStr \<Rightarrow> Inr (moveStr, st\<lparr>gamestate := gs, over := Over eng gs\<rparr>))))"

text \<open>Lines 150-169: the move is read from the client \<open>p\<close>.\<close>

definition clientMove ::
  "('s, 'm) engine \<Rightarrow> ('t::plus) world \<Rightarrow> nat \<Rightarrow> ('s, 't) mstate \<Rightarrow> (string \<times> ('s, 't) mstate) outcome" where
  "clientMove eng w p st =
     (if \<not> get2 (procs st) p then Inl (NilDereference, trace st)
      else
        let (res, dt) = readString w (trace st) p;
            st1 = st\<lparr>mtime := set2 (mtime st) p (get2 (mtime st) p + dt),
                     trace := trace st @ [Read p res]\<rparr>
        in (case res of
              None \<Rightarrow> Inr ('''', st1\<lparr>mfailed := set2 (mfailed st1) p True\<rparr>)
            | Some line \<Rightarrow> playLine eng p line st1))"

text \<open>Lines 171-176: the move is forwarded to the opponent \<open>1 - p\<close>.\<close>

definition forward ::
  "'t world \<Rightarrow> nat \<Rightarrow> string \<Rightarrow> ('s, 't) mstate \<Rightarrow> ('s, 't) mstate outcome" where
  "forward w p moveStr st =
     (if moveStr \<noteq> '''' \<and> \<not> get2 (mfailed st) (1 - p) \<and> \<not> over st then
        if \<not> get2 (procs st) (1 - p) then Inl (NilDereference, trace st)
        else
          let ok = fprintln w (trace st) (1 - p) moveStr;
              st1 = st\<lparr>trace := trace st @ [Write (1 - p) moveStr ok]\<rparr>
          in if ok then Inr st1 else Inr (st1\<lparr>mfailed := set2 (mfailed st1) (1 - p) True\<rparr>)
      else Inr st)"

text \<open>
  Lines 138-176: one iteration of the turn loop.  \<^verbatim>\<open>result.failed[p]\<close> panics when
  the engine's \<^verbatim>\<open>Next()\<close> is neither 0 nor 1.
\<close>

definition turn ::
  "('s, 'm) engine \<Rightarrow> ('t::plus) world \<Rightarrow> ('s, 't) mstate \<Rightarrow> ('s, 't) mstate outcome" where
  "turn eng w st =
     (let p = Next eng (gamestate st) in
      if p \<noteq> 0 \<and> p \<noteq> 1 then Inl (IndexOutOfRange, trace st)
      else
        (case (if get2 (mfailed st) (nat p) then fallbackMove eng w st
               else clientMove eng w (nat p) st) of
           Inl e \<Rightarrow> Inl e
         | Inr (moveStr, st1) \<Rightarrow> forward w (nat p) moveStr st1))"

text \<open>
  Lines 137-177: \<^verbatim>\<open>for !over\<close>.  The loop ends only when the engine says the game is
  over, so it need not end: \<open>None\<close> is a loop that runs forever.
\<close>

partial_function (option) turnLoop ::
  "('s, 'm) engine \<Rightarrow> ('t::plus) world \<Rightarrow> ('s, 't) mstate \<Rightarrow> ('s, 't) mstate outcome option" where
  "turnLoop eng w st =
     (if over st then Some (Inr st)
      else
        (case turn eng w st of
           Inl e \<Rightarrow> Some (Inl e)
         | Inr st1 \<Rightarrow> turnLoop eng w st1))"

declare turnLoop.simps [code]

text \<open>
  Lines 179-183, one iteration: tell the player to quit and close its stdin.  The writer
  of a slot that was never started is nil, and \<^verbatim>\<open>fmt.Fprintln\<close> on it panics.
\<close>

definition quitPlayer :: "'t world \<Rightarrow> nat \<Rightarrow> ('s, 't) mstate \<Rightarrow> ('s, 't) mstate outcome" where
  "quitPlayer w i st =
     (if \<not> get2 (procs st) i then Inl (NilDereference, trace st)
      else Inr (st\<lparr>trace := trace st @ [Write i ''Quit'' (fprintln w (trace st) i ''Quit''), Close i]\<rparr>))"

text \<open>Lines 185-188, one iteration: wait for the process to quit.\<close>

definition waitPlayer :: "nat \<Rightarrow> ('s, 't) mstate \<Rightarrow> ('s, 't) mstate outcome" where
  "waitPlayer i st =
     (if \<not> get2 (procs st) i then Inl (NilDereference, trace st)
      else Inr (st\<lparr>trace := trace st @ [Wait i]\<rparr>))"

text \<open>Lines 179-188: both loops.\<close>

definition shutdown :: "'t world \<Rightarrow> ('s, 't) mstate \<Rightarrow> ('s, 't) mstate outcome" where
  "shutdown w st =
     (case quitPlayer w 0 st of Inl e \<Rightarrow> Inl e | Inr st1 \<Rightarrow>
       (case quitPlayer w 1 st1 of Inl e \<Rightarrow> Inl e | Inr st2 \<Rightarrow>
         (case waitPlayer 0 st2 of Inl e \<Rightarrow> Inl e | Inr st3 \<Rightarrow>
            waitPlayer 1 st3)))"

text \<open>Lines 193-202, one iteration: the competition points of player \<open>i\<close>.\<close>

definition awardPoints :: "nat \<Rightarrow> 't Result \<Rightarrow> 't Result" where
  "awardPoints i result =
     (if \<not> get2 (failed result) i then
        let r1 = result\<lparr>points := set2 (points result) i 1\<rparr>
        in if get2 (score r1) i > get2 (score r1) (1 - i)
           then r1\<lparr>points := set2 (points r1) i (get2 (points r1) i + 1)\<rparr>
           else r1
      else result)"

text \<open>
  Lines 114, 190-202: the result of a match that ended in state \<open>st\<close>.  The result
  starts as \<^verbatim>\<open>Result{player: players}\<close>, takes the flags and times of the loop and
  the engine's scores, and then the competition points of both players.
\<close>

definition matchResult :: "('s, 'm) engine \<Rightarrow> nat \<times> nat \<Rightarrow> ('s, 't) mstate \<Rightarrow> 't Result" where
  "matchResult eng players st =
     awardPoints 1 (awardPoints 0
       \<lparr>player = players, score = Scores eng (gamestate st), failed = mfailed st,
        points = (0, 0), time = mtime st\<rparr>)"

text \<open>The variables before the first player is started (line 135 included).\<close>

definition initialState :: "('s, 'm) engine \<Rightarrow> ('s, 't::zero) mstate" where
  "initialState eng =
     \<lparr>gamestate = CreateState eng, over = Over eng (CreateState eng), mfailed = (False, False),
      mtime = (0, 0), procs = (False, False), trace = []\<rparr>"

text \<open>Lines 120-133: both players are started, the first one first.\<close>

definition startPlayers ::
  "('s, 'm) engine \<Rightarrow> ('t::zero) world \<Rightarrow> string \<times> string \<Rightarrow> string \<times> string \<Rightarrow> ('s, 't) mstate" where
  "startPlayers eng w commands msgPath =
     startPlayer w commands msgPath 1 (startPlayer w commands msgPath 0 (initialState eng))"

text \<open>
  The whole of \<^verbatim>\<open>runMatch\<close> for an empty \<^verbatim>\<open>logPath\<close> (the flag \<^verbatim>\<open>-log\<close> is
  not given), so without the log file of lines 204-232, and without the messages on
  standard error, which change neither the result nor the players.  The
  value is the \<^verbatim>\<open>Result\<close> together with the events of the match; \<open>Inl\<close> is a panic
  and \<open>None\<close> a match that never ends.
\<close>

definition runMatch ::
  "('s, 'm) engine \<Rightarrow> ('t::{zero,plus}) world \<Rightarrow> nat \<times> nat \<Rightarrow> string \<times> string \<Rightarrow> string \<times> string
    \<Rightarrow> ('t Result \<times> event list) outcome option" where
  "runMatch eng w players commands msgPath =
     (case turnLoop eng w (startPlayers eng w commands msgPath) of
        None \<Rightarrow> None
      | Some (Inl e) \<Rightarrow> Some (Inl e)
      | Some (Inr st2) \<Rightarrow>
          (case shutdown w st2 of
             Inl e \<Rightarrow> Some (Inl e)
           | Inr st3 \<Rightarrow> Some (Inr (matchResult eng players st3, trace st3))))"

section \<open>\<^verbatim>\<open>runTournament\<close> (lines 244-305)\<close>

text \<open>
  Go's \<^verbatim>\<open>int\<close> has 64 bits here.  The two products of the number of rounds, which
  comes from the command line, are computed with wrap-around.  All other integers are
  scores that are only compared, or counters bounded by the length of a slice, and are
  modelled by unbounded \<open>int\<close> and \<open>nat\<close>.
\<close>

definition wrap64 :: "int \<Rightarrow> int" where
  "wrap64 x = (x + 2 ^ 63) mod 2 ^ 64 - 2 ^ 63"

text \<open>\<^verbatim>\<open>%04d\<close> of a non-negative number: decimal, padded with zeros to four characters.\<close>

function decimal :: "nat \<Rightarrow> string" where
  "decimal k = (if k < 10 then [''0123456789'' ! k] else decimal (k div 10) @ [''0123456789'' ! (k mod 10)])"
  by pat_completeness auto
termination
  by (relation "measure id") auto

declare decimal.simps [simp del]

definition pad4 :: "nat \<Rightarrow> string" where
  "pad4 k = replicate (4 - length (decimal k)) (CHR ''0'') @ decimal k"

text \<open>Lines 265-274: the paths of the two players' message files for match \<open>n + 1\<close>.\<close>

definition msgFilePath :: "string \<Rightarrow> nat \<Rightarrow> string \<times> string" where
  "msgFilePath msgPath n =
     (if msgPath \<noteq> '''' then
        (if msgPath = ''-'' then (''-'', ''-'')
         else (msgPath @ pad4 (n + 1) @ ''.1.log'', msgPath @ pad4 (n + 1) @ ''.2.log''))
      else ('''', ''''))"

text \<open>
  Lines 261-293, the body of the innermost loop for \<open>i \<noteq> j\<close>: match number \<open>n\<close> is
  played in its own world \<open>worlds n\<close> and its result stored at \<open>results[n]\<close>.  The
  table row printed for the match is not modelled.
\<close>

definition playPair ::
  "('s, 'm) engine \<Rightarrow> (nat \<Rightarrow> ('t::{zero,plus}) world) \<Rightarrow> string \<Rightarrow> string list \<Rightarrow> nat \<Rightarrow> nat
    \<Rightarrow> 't Result list \<times> nat \<Rightarrow> ('t Result list \<times> nat) outcome option" where
  "playPair eng worlds msgPath commands i j acc =
     (case acc of (results, n) \<Rightarrow>
        (case runMatch eng (worlds n) (i, j) (commands ! i, commands ! j) (msgFilePath msgPath n) of
           None \<Rightarrow> None
         | Some (Inl e) \<Rightarrow> Some (Inl e)
         | Some (Inr (res, tr)) \<Rightarrow>
             if n < length results then Some (Inr (results[n := res], n + 1))
             else Some (Inl (IndexOutOfRange, tr))))"

text \<open>
  The three nested loops of lines 257-300 over a loop body \<open>body\<close>.  Each returns
  whether \<^verbatim>\<open>break outermost\<close> was taken, together with the loop variables
  \<^verbatim>\<open>results\<close> and \<^verbatim>\<open>n\<close>.
\<close>

fun jLoop ::
  "(nat \<Rightarrow> nat \<Rightarrow> 'a \<Rightarrow> ('e + 'a) option) \<Rightarrow> bool \<Rightarrow> nat \<Rightarrow> nat list \<Rightarrow> 'a \<Rightarrow> ('e + bool \<times> 'a) option" where
  "jLoop body firstOnly i [] acc = Some (Inr (False, acc))"
| "jLoop body firstOnly i (j # js) acc =
     (if i \<noteq> j then
        (case body i j acc of
           None \<Rightarrow> None
         | Some (Inl e) \<Rightarrow> Some (Inl e)
         | Some (Inr acc1) \<Rightarrow>
             if firstOnly then Some (Inr (True, acc1)) else jLoop body firstOnly i js acc1)
      else jLoop body firstOnly i js acc)"

fun iLoop ::
  "(nat \<Rightarrow> nat \<Rightarrow> 'a \<Rightarrow> ('e + 'a) option) \<Rightarrow> bool \<Rightarrow> nat \<Rightarrow> nat list \<Rightarrow> 'a \<Rightarrow> ('e + bool \<times> 'a) option" where
  "iLoop body firstOnly len [] acc = Some (Inr (False, acc))"
| "iLoop body firstOnly len (i # is) acc =
     (case jLoop body firstOnly i [0..<len] acc of
        None \<Rightarrow> None
      | Some (Inl e) \<Rightarrow> Some (Inl e)
      | Some (Inr (brk, acc1)) \<Rightarrow>
          if brk then Some (Inr (True, acc1)) else iLoop body firstOnly len is acc1)"

fun rLoop ::
  "(nat \<Rightarrow> nat \<Rightarrow> 'a \<Rightarrow> ('e + 'a) option) \<Rightarrow> bool \<Rightarrow> nat \<Rightarrow> nat list \<Rightarrow> 'a \<Rightarrow> ('e + bool \<times> 'a) option" where
  "rLoop body firstOnly len [] acc = Some (Inr (False, acc))"
| "rLoop body firstOnly len (r # rs) acc =
     (case iLoop body firstOnly len [0..<len] acc of
        None \<Rightarrow> None
      | Some (Inl e) \<Rightarrow> Some (Inl e)
      | Some (Inr (brk, acc1)) \<Rightarrow>
          if brk then Some (Inr (True, acc1)) else rLoop body firstOnly len rs acc1)"

text \<open>The zero value \<^verbatim>\<open>Result{}\<close>, with which \<^verbatim>\<open>make\<close> fills the slice.\<close>

definition zeroResult :: "('t::zero) Result" where
  "zeroResult = \<lparr>player = (0, 0), score = (0, 0), failed = (False, False), points = (0, 0),
                  time = (0, 0)\<rparr>"

definition numResults :: "nat \<Rightarrow> int \<Rightarrow> bool \<Rightarrow> int" where
  "numResults len rounds firstOnly =
     (if firstOnly then 1 else wrap64 (wrap64 (rounds * int len) * (int len - 1)))"

text \<open>
  Lines 250-302.  Line 254 is \<^verbatim>\<open>make([]Result, numResults)\<close>.  It panics when the length
  is negative; it does not succeed for every other length either: beyond what the runtime
  can allocate it panics in the same way (\<^verbatim>\<open>makeslice: len out of range\<close>), and short
  of memory the runtime ends the process.  \<open>maxLen\<close> is the largest length for which
  this \<^verbatim>\<open>make\<close> succeeds on the machine at hand, and every failure of \<^verbatim>\<open>make\<close> is
  recorded as the one panic.  The loop over \<open>r\<close> runs \<^verbatim>\<open>rounds\<close> times.
\<close>

definition runTournament ::
  "('s, 'm) engine \<Rightarrow> nat \<Rightarrow> (nat \<Rightarrow> ('t::{zero,plus}) world) \<Rightarrow> string \<Rightarrow> string list \<Rightarrow> int
    \<Rightarrow> bool \<Rightarrow> 't Result list outcome option" where
  "runTournament eng maxLen worlds msgPath commands rounds firstOnly =
     (if numResults (length commands) rounds firstOnly < 0
         \<or> int maxLen < numResults (length commands) rounds firstOnly
      then Some (Inl (MakeSliceLenOutOfRange, []))
      else
        (case rLoop (playPair eng worlds msgPath commands) firstOnly (length commands)
                [0..<nat rounds]
                (replicate (nat (numResults (length commands) rounds firstOnly)) zeroResult, 0) of
           None \<Rightarrow> None
         | Some (Inl e) \<Rightarrow> Some (Inl e)
         | Some (Inr (brk, results, n)) \<Rightarrow> Some (Inr results)))"

section \<open>The statistics of \<^verbatim>\<open>main\<close> (lines 353-391)\<close>

text \<open>The slices of lines 354-366; each has one entry per player.\<close>

record 't stats =
  totalPoints :: "int list"
  gamesWon :: "int list"
  gamesTied :: "int list"
  gamesLost :: "int list"
  gamesFailed :: "int list"
  timeUsed :: "'t list"
  timeMax :: "'t list"
  winLoss :: "int list list"
  pairScore :: "int list list"

definition initStats :: "nat \<Rightarrow> ('t::zero) stats" where
  "initStats len =
     \<lparr>totalPoints = replicate len 0, gamesWon = replicate len 0, gamesTied = replicate len 0,
      gamesLost = replicate len 0, gamesFailed = replicate len 0, timeUsed = replicate len 0,
      timeMax = replicate len 0, winLoss = replicate len (replicate len 0),
      pairScore = replicate len (replicate len 0)\<rparr>"

text \<open>
  Lines 369-389, the body of \<^verbatim>\<open>for i := 0; i < 2; i++\<close> for one result.  Every slice
  has length \<open>len\<close>, the number of players, so an index outside \<open>[0, len)\<close> panics.
  Each statement of the body reads and writes one slice only, so the statements are
  written as one update of the record, in the order of the source (\<open>countSide\<close>).
\<close>

definition countSide :: "('t::{plus,ord}) Result \<Rightarrow> nat \<Rightarrow> 't stats \<Rightarrow> 't stats" where
  "countSide result i st =
     (let pl = get2 (player result) i;
          opponent = get2 (player result) (1 - i)
      in st\<lparr>
           totalPoints := (totalPoints st)[pl := totalPoints st ! pl + get2 (points result) i],
           pairScore := (pairScore st)[pl := (pairScore st ! pl)
               [opponent := wrap64 (pairScore st ! pl ! opponent + get2 (score result) i)]],
           gamesFailed :=
             (if get2 (failed result) i
              then (gamesFailed st)[pl := gamesFailed st ! pl + 1] else gamesFailed st),
           gamesWon :=
             (if get2 (score result) i > get2 (score result) (1 - i)
              then (gamesWon st)[pl := gamesWon st ! pl + 1] else gamesWon st),
           winLoss :=
             (if get2 (score result) i > get2 (score result) (1 - i)
              then (winLoss st)[pl := (winLoss st ! pl)[opponent := winLoss st ! pl ! opponent + 1]]
              else winLoss st),
           gamesTied :=
             (if get2 (score result) i = get2 (score result) (1 - i)
              then (gamesTied st)[pl := gamesTied st ! pl + 1] else gamesTied st),
           gamesLost :=
             (if get2 (score result) i < get2 (score result) (1 - i)
              then (gamesLost st)[pl := gamesLost st ! pl + 1] else gamesLost st),
           timeUsed := (timeUsed st)[pl := timeUsed st ! pl + get2 (time result) i],
           timeMax :=
             (if get2 (time result) i > timeMax st ! pl
              then (timeMax st)[pl := get2 (time result) i] else timeMax st)\<rparr>)"

definition addSide :: "nat \<Rightarrow> ('t::{plus,ord}) Result \<Rightarrow> nat \<Rightarrow> 't stats \<Rightarrow> panic + 't stats" where
  "addSide len result i st =
     (if \<not> (get2 (player result) i < len \<and> get2 (player result) (1 - i) < len)
      then Inl IndexOutOfRange
      else Inr (countSide result i st))"

text \<open>Lines 367-391: \<^verbatim>\<open>for _, result := range results\<close>.\<close>

fun collect :: "nat \<Rightarrow> ('t::{plus,ord}) Result list \<Rightarrow> 't stats \<Rightarrow> panic + 't stats" where
  "collect len [] st = Inr st"
| "collect len (result # rest) st =
     (case addSide len result 0 st of
        Inl e \<Rightarrow> Inl e
      | Inr st1 \<Rightarrow>
          (case addSide len result 1 st1 of
             Inl e \<Rightarrow> Inl e
           | Inr st2 \<Rightarrow> collect len rest st2))"

section \<open>The reports of \<^verbatim>\<open>main\<close> (lines 393-449)\<close>

text \<open>\<^verbatim>\<open>IntPair\<close> and the methods of \<^verbatim>\<open>IntPairSlice\<close> (lines 56-78).\<close>

record IntPair =
  first :: int
  second :: int

definition lessPair :: "IntPair \<Rightarrow> IntPair \<Rightarrow> bool" where
  "lessPair a b = (first a < first b \<or> (first a = first b \<and> second a < second b))"

definition Less :: "IntPair list \<Rightarrow> nat \<Rightarrow> nat \<Rightarrow> bool" where
  "Less ips i j = lessPair (ips ! i) (ips ! j)"

definition Swap :: "IntPair list \<Rightarrow> nat \<Rightarrow> nat \<Rightarrow> IntPair list" where
  "Swap ips i j = ips[i := ips ! j, j := ips ! i]"

function ReverseLoop :: "IntPair list \<Rightarrow> nat \<Rightarrow> nat \<Rightarrow> IntPair list" where
  "ReverseLoop ips i j = (if i < j then ReverseLoop (Swap ips i j) (i + 1) (j - 1) else ips)"
  by pat_completeness auto
termination
  by (relation "measure (\<lambda>(ips, i, j). j - i)") auto

declare ReverseLoop.simps [simp del]

definition Reverse :: "IntPair list \<Rightarrow> IntPair list" where
  "Reverse ips = ReverseLoop ips 0 (length ips - 1)"

text \<open>
  \<^verbatim>\<open>sort.Sort\<close> belongs to Go's library: it reorders the slice so that no element is
  \<^verbatim>\<open>Less\<close> than an element before it.  It is modelled by insertion sort; lemma
  \<open>sortSort_unique\<close> below shows that on slices without duplicates every list that
  meets this contract is the one computed here.
\<close>

fun insertPair :: "IntPair \<Rightarrow> IntPair list \<Rightarrow> IntPair list" where
  "insertPair x [] = [x]"
| "insertPair x (y # ys) = (if lessPair y x then y # insertPair x ys else x # y # ys)"

definition sortSort :: "IntPair list \<Rightarrow> IntPair list" where
  "sortSort ips = foldr insertPair ips []"

text \<open>Lines 403-408.\<close>

definition pointsPlayers :: "nat \<Rightarrow> int list \<Rightarrow> IntPair list" where
  "pointsPlayers len tp =
     Reverse (sortSort (map (\<lambda>i. \<lparr>first = tp ! i, second = - int i\<rparr>) [0..<len]))"

text \<open>The players in the order of the ranking: \<^verbatim>\<open>p := -ip.second\<close> for each pair.\<close>

definition ranking :: "nat \<Rightarrow> int list \<Rightarrow> nat list" where
  "ranking len tp = map (\<lambda>ip. nat (- second ip)) (pointsPlayers len tp)"

text \<open>
  A printed value: \<open>D\<close> for the verb \<^verbatim>\<open>%d\<close>, \<open>F\<close> for \<^verbatim>\<open>%f\<close>.  A printed line
  is the list of its values from left to right.  \<open>float64\<close> is the conversion of an
  \<^verbatim>\<open>int\<close> to \<^verbatim>\<open>float64\<close>.
\<close>

datatype 't field = D int | F 't

definition statFields :: "(int \<Rightarrow> 't) \<Rightarrow> ('t::inverse) stats \<Rightarrow> int \<Rightarrow> nat \<Rightarrow> 't field list" where
  "statFields float64 st numGames p =
     [D (totalPoints st ! p), D (gamesWon st ! p), D (gamesTied st ! p), D (gamesLost st ! p),
      D (gamesFailed st ! p), F (timeUsed st ! p / float64 numGames), F (timeMax st ! p)]"

text \<open>Lines 394-398: the brief results, one line per player.\<close>

definition briefLines :: "(int \<Rightarrow> 't) \<Rightarrow> nat \<Rightarrow> ('t::inverse) stats \<Rightarrow> int \<Rightarrow> 't field list list" where
  "briefLines float64 len st numGames = map (statFields float64 st numGames) [0..<len]"

text \<open>
  Lines 414-419: the ranking, one row per pair of \<^verbatim>\<open>pointsPlayers\<close>: the rank, the
  player and the player's values (the name is \<^verbatim>\<open>players[p]\<close>, shortened).
\<close>

definition rankingRows ::
  "(int \<Rightarrow> 't) \<Rightarrow> nat \<Rightarrow> ('t::inverse) stats \<Rightarrow> int \<Rightarrow> (nat \<times> nat \<times> 't field list) list" where
  "rankingRows float64 len st numGames =
     map (\<lambda>(i, p). (i + 1, p, statFields float64 st numGames p))
       (enumerate 0 (ranking len (totalPoints st)))"

text \<open>Lines 435-447: the win/loss matrix, rows and columns in ranking order.\<close>

definition winMatrix :: "nat \<Rightarrow> 't stats \<Rightarrow> (nat \<times> int option list) list" where
  "winMatrix len st =
     map (\<lambda>p. (p, map (\<lambda>q. if p = q then None else Some (winLoss st ! p ! q))
                      (ranking len (totalPoints st))))
       (ranking len (totalPoints st))"

datatype 't report =
    TooFewPlayers
  | InvalidRounds
  | SingleNeedsTwoPlayers
  | Brief "'t field list list"
  | Verbose "(nat \<times> nat \<times> 't field list) list" "(nat \<times> int option list) list option"

definition numGames :: "nat \<Rightarrow> int \<Rightarrow> bool \<Rightarrow> int" where
  "numGames len rounds single =
     (if single then 1 else wrap64 (wrap64 (rounds * (int len - 1)) * 2))"

text \<open>
  Lines 329-482, after the flags are parsed: \<open>players\<close> is \<^verbatim>\<open>flag.Args()\<close>.  The flags
  \<^verbatim>\<open>-log\<close> and \<^verbatim>\<open>-cpuprofile\<close> are taken not to be given (with them, a file that
  cannot be created makes line 208 or line 340 print a message on standard output), and
  the disabled third table is left out.  The report is what \<^verbatim>\<open>main\<close> prints on
  standard output after the tournament.  The slices of the statistics have one entry per
  command-line argument, and \<^verbatim>\<open>make\<close> is taken to succeed for them.
\<close>

definition main ::
  "(int \<Rightarrow> 't) \<Rightarrow> ('s, 'm) engine \<Rightarrow> nat \<Rightarrow> (nat \<Rightarrow> ('t::{zero,plus,ord,inverse}) world) \<Rightarrow> string
    \<Rightarrow> bool \<Rightarrow> bool \<Rightarrow> int \<Rightarrow> string list \<Rightarrow> 't report outcome option" where
  "main float64 eng maxLen worlds msgPath quiet single rounds players =
     (if length players < 2 then Some (Inr TooFewPlayers)
      else if rounds < 1 then Some (Inr InvalidRounds)
      else if single \<and> (length players > 2 \<or> rounds > 1) then Some (Inr SingleNeedsTwoPlayers)
      else
        (case runTournament eng maxLen worlds msgPath players rounds single of
           None \<Rightarrow> None
         | Some (Inl e) \<Rightarrow> Some (Inl e)
         | Some (Inr results) \<Rightarrow>
             (case collect (length players) results (initStats (length players)) of
                Inl e \<Rightarrow> Some (Inl (e, []))
              | Inr st \<Rightarrow>
                  if quiet
                  then Some (Inr (Brief (briefLines float64 (length players) st
                                          (numGames (length players) rounds single))))
                  else Some (Inr (Verbose
                         (rankingRows float64 (length players) st
                            (numGames (length players) rounds single))
                         (if length players > 2 then Some (winMatrix (length players) st)
                          else None))))))"

section \<open>Notions used in the properties\<close>

text \<open>The events of a match, whether it returned or panicked.\<close>

definition matchTrace :: "('r \<times> event list) outcome \<Rightarrow> event list" where
  "matchTrace out = (case out of Inl (e, tr) \<Rightarrow> tr | Inr (r, tr) \<Rightarrow> tr)"

text \<open>The event is a write of the line \<^verbatim>\<open>Start\<close> to some player.\<close>

definition isStart :: "event \<Rightarrow> bool" where
  "isStart ev = (case ev of Write q s ok \<Rightarrow> s = ''Start'' | _ \<Rightarrow> False)"

text \<open>Line 143: the move that a fallback turn in state \<open>st\<close> plays.\<close>

definition chosenMove :: "('s, 'm) engine \<Rightarrow> 't world \<Rightarrow> ('s, 't) mstate \<Rightarrow> 'm" where
  "chosenMove eng w st =
     ListMoves eng (gamestate st) ! (randSource w (trace st) mod length (ListMoves eng (gamestate st)))"

text \<open>
  The states at which the loop of lines 137-177 stands at the head of an iteration, when
  it is entered in state \<open>st\<close>.
\<close>

inductive reaches ::
  "('s, 'm) engine \<Rightarrow> ('t::plus) world \<Rightarrow> ('s, 't) mstate \<Rightarrow> ('s, 't) mstate \<Rightarrow> bool"
  for eng w st where
    start: "reaches eng w st st"
  | step: "reaches eng w st s \<Longrightarrow> \<not> over s \<Longrightarrow> turn eng w s = Inr s1 \<Longrightarrow> reaches eng w st s1"

text \<open>
  What the arbiter expects of the engine: while the game is not over there is a legal
  move, and every move that \<^verbatim>\<open>ListMoves\<close> lists is accepted by \<^verbatim>\<open>Execute\<close>.
\<close>

definition engineContract :: "('s, 'm) engine \<Rightarrow> bool" where
  "engineContract eng =
     (\<forall>s. \<not> Over eng s \<longrightarrow>
        ListMoves eng s \<noteq> [] \<and> (\<forall>m \<in> set (ListMoves eng s). fst (Execute eng s m)))"

text \<open>A move that \<^verbatim>\<open>Execute\<close> rejects leaves the game state as it was.\<close>

definition rejectKeeps :: "('s, 'm) engine \<Rightarrow> bool" where
  "rejectKeeps eng = (\<forall>s m. \<not> fst (Execute eng s m) \<longrightarrow> snd (Execute eng s m) = s)"

text \<open>
  The answer of the client \<open>p\<close> in state \<open>st\<close> is a failure of one of the three
  kinds that lines 154, 159 and 162 tell apart: the read fails, or the line read does not
  parse as a move, or the engine rejects the move.
\<close>

definition badAnswer :: "('s, 'm) engine \<Rightarrow> 't world \<Rightarrow> nat \<Rightarrow> ('s, 't) mstate \<Rightarrow> bool" where
  "badAnswer eng w p st =
     (case fst (readString w (trace st) p) of
        None \<Rightarrow> True
      | Some line \<Rightarrow>
          line \<noteq> [] \<and>
          (case ParseMove eng (butlast line) of
             None \<Rightarrow> True
           | Some move \<Rightarrow> \<not> fst (Execute eng (gamestate st) move)))"

text \<open>
  The matchups of one round as the specification lists them: every ordered pair \<open>(i, j)\<close>
  of distinct player indices, the outer enumeration over the first mover \<open>i\<close>, the
  inner over \<open>j\<close>; and the matchups of a tournament, round after round.
\<close>

definition pairings :: "nat \<Rightarrow> (nat \<times> nat) list" where
  "pairings len = concat (map (\<lambda>i. map (\<lambda>j. (i, j)) (filter (\<lambda>j. i \<noteq> j) [0..<len])) [0..<len])"

definition schedule :: "nat \<Rightarrow> nat \<Rightarrow> (nat \<times> nat) list" where
  "schedule len rounds = concat (replicate rounds (pairings len))"

text \<open>A loop body run on a list of pairs, one after the other, until one does not return.\<close>

fun runPairs ::
  "(nat \<Rightarrow> nat \<Rightarrow> 'a \<Rightarrow> ('e + 'a) option) \<Rightarrow> (nat \<times> nat) list \<Rightarrow> 'a \<Rightarrow> ('e + 'a) option" where
  "runPairs body [] acc = Some (Inr acc)"
| "runPairs body (ij # ps) acc =
     (case body (fst ij) (snd ij) acc of
        None \<Rightarrow> None
      | Some (Inl e) \<Rightarrow> Some (Inl e)
      | Some (Inr acc1) \<Rightarrow> runPairs body ps acc1)"

text \<open>
  Match number \<open>k\<close> of a tournament, between the players \<open>ij\<close>, as line 275 calls
  \<^verbatim>\<open>runMatch\<close>.
\<close>

definition matchOf ::
  "('s, 'm) engine \<Rightarrow> (nat \<Rightarrow> ('t::{zero,plus}) world) \<Rightarrow> string \<Rightarrow> string list \<Rightarrow> nat \<Rightarrow> nat \<times> nat
    \<Rightarrow> ('t Result \<times> event list) outcome option" where
  "matchOf eng worlds msgPath commands k ij =
     runMatch eng (worlds k) ij (commands ! fst ij, commands ! snd ij) (msgFilePath msgPath k)"

text \<open>The slices of the statistics have one entry per player, and so has each row.\<close>

definition wellFormed :: "nat \<Rightarrow> 't stats \<Rightarrow> bool" where
  "wellFormed len st =
     (length (totalPoints st) = len \<and> length (gamesWon st) = len \<and> length (gamesTied st) = len
      \<and> length (gamesLost st) = len \<and> length (gamesFailed st) = len \<and> length (timeUsed st) = len
      \<and> length (timeMax st) = len \<and> length (winLoss st) = len \<and> length (pairScore st) = len
      \<and> list_all (\<lambda>row. length row = len) (winLoss st)
      \<and> list_all (\<lambda>row. length row = len) (pairScore st))"

text \<open>The number of games among \<open>results\<close> in which player \<open>p\<close> took part.\<close>

definition gamesOf :: "nat \<Rightarrow> 't Result list \<Rightarrow> nat" where
  "gamesOf p results = length (filter (\<lambda>r. fst (player r) = p \<or> snd (player r) = p) results)"

text \<open>
  The ranking as the specification words it: a stable sort of the players, in their
  original order, by descending total points.
\<close>

definition rankSpec :: "nat \<Rightarrow> int list \<Rightarrow> nat list" where
  "rankSpec len tp = sort_key (\<lambda>i. - (tp ! i)) [0..<len]"

text \<open>
  The times of player \<open>p\<close> in \<open>results\<close>, in the order in which lines 367-391 add
  them up, and their sum from the left, starting from \<open>t\<close>.
\<close>

definition timesOf :: "nat \<Rightarrow> 't Result list \<Rightarrow> 't list" where
  "timesOf p results =
     concat (map (\<lambda>r. (if fst (player r) = p then [fst (time r)] else [])
                      @ (if snd (player r) = p then [snd (time r)] else [])) results)"

definition cumTime :: "('t::plus) \<Rightarrow> nat \<Rightarrow> 't Result list \<Rightarrow> 't" where
  "cumTime t p results = foldl (+) t (timesOf p results)"

text \<open>The competition points that player \<open>p\<close> got in \<open>results\<close>, game by game.\<close>

definition pointsOf :: "nat \<Rightarrow> 't Result list \<Rightarrow> int list" where
  "pointsOf p results =
     concat (map (\<lambda>r. (if fst (player r) = p then [fst (points r)] else [])
                      @ (if snd (player r) = p then [snd (points r)] else [])) results)"

section \<open>A small game and small worlds, for concrete runs\<close>

text \<open>
  A game of two moves.  The state is the number of moves made and the two scores; the
  players move in turn; a move is 1 or 2 and adds that much to the mover's score.  The
  text \<^verbatim>\<open>3\<close> parses as a move that the game rejects.
\<close>

definition toyExecute :: "nat \<times> int \<times> int \<Rightarrow> nat \<Rightarrow> bool \<times> (nat \<times> int \<times> int)" where
  "toyExecute s m =
     (case s of (k, a, b) \<Rightarrow>
        if m = 1 \<or> m = 2
        then (True, (k + 1, (if even k then a + int m else a), (if even k then b else b + int m)))
        else (False, s))"

definition toyParse :: "string \<Rightarrow> nat option" where
  "toyParse s =
     (if s = ''1'' then Some 1 else if s = ''2'' then Some 2 else if s = ''3'' then Some 3
      else None)"

definition toyString :: "nat \<Rightarrow> string option" where
  "toyString m = Some (if m = 1 then ''1'' else if m = 2 then ''2'' else ''3'')"

definition toy :: "(nat \<times> int \<times> int, nat) engine" where
  "toy = \<lparr>CreateState = (0, 0, 0), Over = (\<lambda>s. fst s \<ge> 2), Next = (\<lambda>s. int (fst s mod 2)),
          ListMoves = (\<lambda>s. [1, 2]), Execute = toyExecute, Scores = (\<lambda>s. snd s),
          ParseMove = toyParse, Stringer = toyString\<rparr>"

text \<open>
  On linux/amd64 the runtime allocates at most \<open>2\<^sup>4\<^sup>8\<close> bytes at once, and a
  \<^verbatim>\<open>Result\<close> takes 72 bytes (four arrays of two 8-byte values, and two bools padded to
  8 bytes): \<^verbatim>\<open>make([]Result, n)\<close> panics for every \<open>n\<close> above this bound, however much
  memory there is.
\<close>

definition amd64MaxLen :: nat where
  "amd64MaxLen = 2 ^ 48 div 72"

text \<open>An operating system on which every call of \<^verbatim>\<open>runPlayer\<close> succeeds.\<close>

definition goodOs :: os_env where
  "goodOs = \<lparr>lookPath = (\<lambda>s. Some s), getwd = Some ''/'', stdinPipe = True, stdoutPipe = True,
             create = (\<lambda>s. True), start = True\<rparr>"

text \<open>
  Both players start and answer \<^verbatim>\<open>1\<close> and \<^verbatim>\<open>2\<close>; every read takes one second;
  writes succeed.
\<close>

definition fairWorld :: "real world" where
  "fairWorld = \<lparr>os = (\<lambda>i. goodOs),
                 readString = (\<lambda>tr p. if p = 0 then (Some ''1\<newline>'', 1) else (Some ''2\<newline>'', 1)),
                 fprintln = (\<lambda>tr p s. True), randSource = (\<lambda>tr. 1)\<rparr>"

text \<open>A tournament in which every match is played in that world.\<close>

definition fairWorlds :: "nat \<Rightarrow> real world" where
  "fairWorlds k = fairWorld"

text \<open>The first player's stdout is closed: its first read fails.\<close>

definition deafWorld :: "real world" where
  "deafWorld = fairWorld\<lparr>readString := (\<lambda>tr p. if p = 0 then (None, 1) else (Some ''1\<newline>'', 2))\<rparr>"

text \<open>The first player's command cannot be found.\<close>

definition lostWorld :: "real world" where
  "lostWorld = fairWorld\<lparr>os := (\<lambda>i. if i = 0 then goodOs\<lparr>lookPath := (\<lambda>s. None)\<rparr> else goodOs)\<rparr>"

text \<open>Writing a move to the second player fails (writing \<^verbatim>\<open>Quit\<close> does not matter).\<close>

definition muteWorld :: "real world" where
  "muteWorld = fairWorld\<lparr>fprintln := (\<lambda>tr p s. p = 0)\<rparr>"

text \<open>
  A tournament whose first match is played in \<open>fairWorld\<close> and every other match in
  \<open>muteWorld\<close>.
\<close>

definition unevenWorlds :: "nat \<Rightarrow> real world" where
  "unevenWorlds k = (if k = 0 then fairWorld else muteWorld)"




text \<open>Two broken engines: one offers no moves, one rejects every move.\<close>

definition noMovesToy :: "(nat \<times> int \<times> int, nat) engine" where
  "noMovesToy = toy\<lparr>ListMoves := (\<lambda>s. [])\<rparr>"

definition rejectingToy :: "(nat \<times> int \<times> int, nat) engine" where
  "rejectingToy = toy\<lparr>Execute := (\<lambda>s m. (False, s))\<rparr>"

text \<open>The state of a match in \<open>deafWorld\<close> after the first turn: player 0 has failed.\<close>

definition deafFailed :: "(nat \<times> int \<times> int, real) mstate" where
  "deafFailed =
     \<lparr>gamestate = (0, 0, 0), over = False, mfailed = (True, False), mtime = (1, 0),
      procs = (True, True),
      trace = [Spawn 0 True, Write 0 ''Start'' True, Spawn 1 True, Read 0 None]\<rparr>"

section \<open>Properties\<close>

subsection \<open>Arrays of length two, and evaluation of concrete runs\<close>

lemma get2_set2: "get2 (set2 a i v) j = (if (i = 0) = (j = 0) then v else get2 a j)"
  by (simp add: get2_def set2_def)

lemma Fields_a [simp]: "Fields ''a'' = [''a'']"
  by (simp add: Fields.simps spaceWidth_def isSpace_def unicodeSpaces_def)

lemma Fields_b [simp]: "Fields ''b'' = [''b'']"
  by (simp add: Fields.simps spaceWidth_def isSpace_def unicodeSpaces_def)

lemmas eval_defs = runMatch_def matchResult_def initialState_def startPlayers_def startPlayer_def runPlayer_def
  toy_def goodOs_def get2_def set2_def turn_def clientMove_def playLine_def fallbackMove_def
  forward_def toyExecute_def toyParse_def toyString_def shutdown_def quitPlayer_def
  waitPlayer_def awardPoints_def Let_def isSpace_def

subsection \<open>Competition points\<close>

lemma awardPoints_failed [simp]: "failed (awardPoints i r) = failed r"
  by (simp add: awardPoints_def Let_def)

lemma awardPoints_score [simp]: "score (awardPoints i r) = score r"
  by (simp add: awardPoints_def Let_def)

lemma awardPoints_player [simp]: "player (awardPoints i r) = player r"
  by (simp add: awardPoints_def Let_def)

lemma awardPoints_time [simp]: "time (awardPoints i r) = time r"
  by (simp add: awardPoints_def Let_def)

lemma matchResult_fields [simp]:
  "failed (matchResult eng players st) = mfailed st"
  "score (matchResult eng players st) = Scores eng (gamestate st)"
  "player (matchResult eng players st) = players"
  "time (matchResult eng players st) = mtime st"
  by (simp_all add: matchResult_def)

lemma matchResult_points:
  assumes "i < 2"
  shows "get2 (points (matchResult eng players st)) i =
           (if get2 (mfailed st) i then 0
            else 1 + (if get2 (Scores eng (gamestate st)) (1 - i) < get2 (Scores eng (gamestate st)) i
                      then 1 else 0))"
proof -
  from assms have "i = 0 \<or> i = 1" by arith
  then show ?thesis
    by (auto simp: matchResult_def awardPoints_def Let_def get2_def set2_def)
qed

lemma runMatch_result:
  assumes "runMatch eng w players commands msgPath = Some (Inr (result, tr))"
  obtains st where "result = matchResult eng players st" and "tr = trace st"
  using assms by (auto simp: runMatch_def split: option.splits sum.splits)

text \<open>
  A match in which the first player's first read fails.  The player is marked failed, a
  random move (2) is played for it, the second player answers 1, and the failed player
  ends with the higher score.
\<close>

lemma deaf_run:
  "runMatch toy deafWorld (0, 1) (''a'', ''b'') ('''', '''') =
     Some (Inr (\<lparr>player = (0, 1), score = (2, 1), failed = (True, False), points = (0, 1),
                  time = (1, 2)\<rparr>,
        [Spawn 0 True, Write 0 ''Start'' True, Spawn 1 True, Read 0 None,
         Intn 2 1, Write 1 ''2'' True, Read 1 (Some ''1\<newline>''),
         Write 0 ''Quit'' True, Close 0, Write 1 ''Quit'' True, Close 1,
         Wait 0, Wait 1]))"
  by (simp add: eval_defs turnLoop.simps deafWorld_def fairWorld_def)

text \<open>
  C1.  In every result that \<^verbatim>\<open>runMatch\<close> returns, a player whose failed flag is set
  has 0 competition points, and a player that did not fail has 1 point, plus 1 more
  exactly when its final score is strictly greater than the opponent's; so equal scores
  give neither player the extra point.
\<close>

theorem runMatch_points:
  assumes "runMatch eng w players commands msgPath = Some (Inr (result, tr))" and "i < 2"
  shows "get2 (points result) i =
           (if get2 (failed result) i then 0
            else 1 + (if get2 (score result) (1 - i) < get2 (score result) i then 1 else 0))"
proof -
  from assms(1) obtain st3 where res: "result = matchResult eng players st3"
    by (rule runMatch_result)
  show ?thesis
    unfolding res using matchResult_points [OF \<open>i < 2\<close>, of eng players st3] by simp
qed

theorem runMatch_points_witness:
  "\<exists>result tr. runMatch toy deafWorld (0, 1) (''a'', ''b'') ('''', '''') = Some (Inr (result, tr))
     \<and> get2 (failed result) 0 \<and> get2 (points result) 0 = 0
     \<and> get2 (score result) 1 < get2 (score result) 0
     \<and> \<not> get2 (failed result) 1 \<and> get2 (points result) 1 = 1"
  using runMatch_points [OF deaf_run, of 0] runMatch_points [OF deaf_run, of 1] deaf_run
  by (simp add: get2_def)

subsection \<open>The turn loop\<close>

lemma turnLoop_over: "over st \<Longrightarrow> turnLoop eng w st = Some (Inr st)"
  by (simp add: turnLoop.simps)

lemma turnLoop_panic: "\<not> over st \<Longrightarrow> turn eng w st = Inl e \<Longrightarrow> turnLoop eng w st = Some (Inl e)"
  by (subst turnLoop.simps) simp

lemma turnLoop_step: "\<not> over st \<Longrightarrow> turn eng w st = Inr st1 \<Longrightarrow> turnLoop eng w st = turnLoop eng w st1"
  by (subst turnLoop.simps) simp

lemma turnLoop_invariant:
  assumes run: "turnLoop eng w st = Some out"
    and step: "\<And>s s'. P s \<Longrightarrow> \<not> over s \<Longrightarrow> turn eng w s = Inr s' \<Longrightarrow> P s'"
    and init: "P st"
  shows "case out of Inr st' \<Rightarrow> P st' \<and> over st'
                   | Inl e \<Rightarrow> \<exists>s. P s \<and> \<not> over s \<and> turn eng w s = Inl e"
proof -
  have "(\<forall>s s'. P s \<longrightarrow> \<not> over s \<longrightarrow> turn eng w s = Inr s' \<longrightarrow> P s') \<longrightarrow> P st \<longrightarrow>
        (case out of Inr st' \<Rightarrow> P st' \<and> over st'
                   | Inl e \<Rightarrow> \<exists>s. P s \<and> \<not> over s \<and> turn eng w s = Inl e)"
  proof (induct eng w st out rule: turnLoop.raw_induct)
    case (1 loop eng w st out)
    show ?case
    proof (intro impI)
      assume step: "\<forall>s s'. P s \<longrightarrow> \<not> over s \<longrightarrow> turn eng w s = Inr s' \<longrightarrow> P s'" and init: "P st"
      show "case out of Inr st' \<Rightarrow> P st' \<and> over st'
                   | Inl e \<Rightarrow> \<exists>s. P s \<and> \<not> over s \<and> turn eng w s = Inl e"
      proof (cases "over st")
        case True
        with 1(2) init show ?thesis by auto
      next
        case False
        show ?thesis
        proof (cases "turn eng w st")
          case (Inl e)
          with False 1(2) init show ?thesis by auto
        next
          case (Inr st1)
          with False 1(2) have "loop eng w st1 = Some out" by simp
          moreover have "P st1" using step init False Inr by blast
          ultimately show ?thesis using 1(1) step by blast
        qed
      qed
    qed
  qed (rule run)
  with step init show ?thesis by blast
qed

subsection \<open>One turn\<close>

lemma fallbackMove_Inr:
  assumes "fallbackMove eng w st = Inr (moveStr, st1)"
  shows "\<exists>move. ListMoves eng (gamestate st) \<noteq> []
           \<and> move = ListMoves eng (gamestate st) ! (randSource w (trace st) mod length (ListMoves eng (gamestate st)))
           \<and> Execute eng (gamestate st) move = (True, gamestate st1)
           \<and> Stringer eng move = Some moveStr
           \<and> st1 = st\<lparr>gamestate := gamestate st1, over := Over eng (gamestate st1),
                       trace := trace st @ [Intn (length (ListMoves eng (gamestate st)))
                          (randSource w (trace st) mod length (ListMoves eng (gamestate st)))]\<rparr>"
  using assms
  by (auto simp: fallbackMove_def Let_def split: if_splits prod.splits option.splits)

lemma playLine_Inr:
  assumes "playLine eng p line st = Inr (moveStr, st1)"
  shows "line \<noteq> [] \<and>
         ((ParseMove eng (butlast line) = None \<and> moveStr = '''' \<and> st1 = st\<lparr>mfailed := set2 (mfailed st) p True\<rparr>)
        \<or> (\<exists>move. ParseMove eng (butlast line) = Some move \<and> Execute eng (gamestate st) move = (False, gamestate st1)
              \<and> moveStr = '''' \<and> st1 = st\<lparr>gamestate := gamestate st1, mfailed := set2 (mfailed st) p True\<rparr>)
        \<or> (\<exists>move. ParseMove eng (butlast line) = Some move \<and> Execute eng (gamestate st) move = (True, gamestate st1)
              \<and> Stringer eng move = Some moveStr
              \<and> st1 = st\<lparr>gamestate := gamestate st1, over := Over eng (gamestate st1)\<rparr>))"
  using assms
  by (auto simp: playLine_def Let_def split: if_splits prod.splits option.splits)

lemmas turn_defs = turn_def fallbackMove_def clientMove_def playLine_def forward_def Let_def
lemmas turn_splits = if_splits prod.splits option.splits sum.splits

lemma turn_procs: "turn eng w st = Inr st' \<Longrightarrow> procs st' = procs st"
  by (auto simp: turn_defs split: turn_splits)

lemma turn_failed_mono: "turn eng w st = Inr st' \<Longrightarrow> get2 (mfailed st) i \<Longrightarrow> get2 (mfailed st') i"
  by (auto simp: turn_defs get2_def set2_def split: turn_splits)

lemma turn_isStart:
  assumes "\<forall>move. Stringer eng move \<noteq> Some ''Start''"
  shows "turn eng w st = Inr st' \<Longrightarrow> filter isStart (trace st') = filter isStart (trace st)"
    and "turn eng w st = Inl (e, tr) \<Longrightarrow> filter isStart tr = filter isStart (trace st)"
  using assms
  by (auto simp: turn_defs isStart_def split: turn_splits)

subsection \<open>Starting and stopping the players\<close>

lemma startPlayer_procs:
  "procs (startPlayer w commands msgPath i st) =
     (case runPlayer (os w i) (get2 commands i) (get2 msgPath i) of
        Inl err \<Rightarrow> procs st | Inr dest \<Rightarrow> set2 (procs st) i True)"
  by (simp add: startPlayer_def Let_def split: sum.splits)

lemma startPlayers_procs:
  "procs (startPlayers eng w commands msgPath) =
     (\<not> isl (runPlayer (os w 0) (get2 commands 0) (get2 msgPath 0)),
      \<not> isl (runPlayer (os w 1) (get2 commands 1) (get2 msgPath 1)))"
  by (simp add: startPlayers_def startPlayer_procs initialState_def set2_def split: sum.splits)

lemma startPlayers_trace:
  "trace (startPlayers eng w commands msgPath) =
     (case runPlayer (os w 0) (get2 commands 0) (get2 msgPath 0) of
        Inl err \<Rightarrow> [Spawn 0 False]
      | Inr dest \<Rightarrow> [Spawn 0 True, Write 0 ''Start'' (fprintln w [Spawn 0 True] 0 ''Start'')])
     @ [Spawn 1 (\<not> isl (runPlayer (os w 1) (get2 commands 1) (get2 msgPath 1)))]"
  by (simp add: startPlayers_def startPlayer_def initialState_def Let_def split: sum.splits)

lemma shutdown_Inr_procs: "shutdown w st = Inr st' \<Longrightarrow> procs st = (True, True)"
  by (auto simp: shutdown_def quitPlayer_def waitPlayer_def get2_def prod_eq_iff split: sum.splits if_splits)

lemma shutdown_isStart:
  shows "shutdown w st = Inr st' \<Longrightarrow> filter isStart (trace st') = filter isStart (trace st)"
    and "shutdown w st = Inl (e, tr) \<Longrightarrow> filter isStart tr = filter isStart (trace st)"
  by (auto simp: shutdown_def quitPlayer_def waitPlayer_def isStart_def split: sum.splits if_splits)

lemma turnLoop_procs:
  assumes "turnLoop eng w st = Some (Inr st')"
  shows "procs st' = procs st"
  using turnLoop_invariant [OF assms, where P = "\<lambda>s. procs s = procs st"] turn_procs
  by fastforce

lemma runMatch_spawn_failure:
  assumes "i = 0 \<or> i = 1" and "runPlayer (os w i) (get2 commands i) (get2 msgPath i) = Inl err"
  shows "runMatch eng w players commands msgPath \<noteq> Some (Inr r)"
proof
  assume "runMatch eng w players commands msgPath = Some (Inr r)"
  then obtain st2 st3 where loop: "turnLoop eng w (startPlayers eng w commands msgPath) = Some (Inr st2)"
    and "shutdown w st2 = Inr st3"
    by (auto simp: runMatch_def split: option.splits sum.splits)
  then have "procs st2 = (True, True)" by (simp add: shutdown_Inr_procs)
  with turnLoop_procs [OF loop] have "procs (startPlayers eng w commands msgPath) = (True, True)" by simp
  with assms show False by (auto simp: startPlayers_procs)
qed

lemma turnLoop_isStart:
  assumes "turnLoop eng w st = Some out" and "\<forall>move. Stringer eng move \<noteq> Some ''Start''"
  shows "filter isStart (case out of Inl (e, tr) \<Rightarrow> tr | Inr st' \<Rightarrow> trace st') = filter isStart (trace st)"
proof -
  let ?P = "\<lambda>s. filter isStart (trace s) = filter isStart (trace st)"
  have "case out of Inr st' \<Rightarrow> ?P st' \<and> over st'
                   | Inl e \<Rightarrow> \<exists>s. ?P s \<and> \<not> over s \<and> turn eng w s = Inl e"
    by (rule turnLoop_invariant [OF assms(1)]) (simp_all add: turn_isStart(1) [OF assms(2)])
  then show ?thesis
    by (auto split: sum.splits dest: turn_isStart(2) [OF assms(2)])
qed

text \<open>
  C10.  The line \<^verbatim>\<open>Start\<close> is written to the first player exactly when that player's
  process was started, and to nobody otherwise: among all events of a match, whether it
  returns or panics, the writes of \<^verbatim>\<open>Start\<close> are one write to slot 0 when
  \<^verbatim>\<open>runPlayer\<close> succeeded for the first command, and none at all when it failed;
  the second player never gets it.  (The engine is assumed not to print any move as
  \<^verbatim>\<open>Start\<close>, so that a forwarded move is not taken for the sentinel.)
\<close>

theorem start_sentinel:
  assumes "runMatch eng w players commands msgPath = Some out"
    and "\<forall>move. Stringer eng move \<noteq> Some ''Start''"
  shows "filter isStart (matchTrace out) =
           (case runPlayer (os w 0) (get2 commands 0) (get2 msgPath 0) of
              Inl err \<Rightarrow> []
            | Inr dest \<Rightarrow> [Write 0 ''Start'' (fprintln w [Spawn 0 True] 0 ''Start'')])"
proof -
  let ?st1 = "startPlayers eng w commands msgPath"
  have start: "filter isStart (trace ?st1) =
           (case runPlayer (os w 0) (get2 commands 0) (get2 msgPath 0) of
              Inl err \<Rightarrow> []
            | Inr dest \<Rightarrow> [Write 0 ''Start'' (fprintln w [Spawn 0 True] 0 ''Start'')])"
    by (simp add: startPlayers_trace isStart_def split: sum.splits)
  from assms(1) obtain lout where loop: "turnLoop eng w ?st1 = Some lout"
    by (auto simp: runMatch_def split: option.splits)
  note inv = turnLoop_isStart [OF loop assms(2)]
  show ?thesis
  proof (cases lout)
    case (Inl e)
    with loop assms(1) have "out = Inl e" by (simp add: runMatch_def)
    with inv Inl start show ?thesis by (simp add: matchTrace_def split: prod.splits)
  next
    case (Inr st2)
    show ?thesis
    proof (cases "shutdown w st2")
      case (Inl e)
      with loop Inr assms(1) have "out = Inl e" by (simp add: runMatch_def)
      with shutdown_isStart(2) [of w st2 "fst e" "snd e"] Inl inv Inr start show ?thesis
        by (simp add: matchTrace_def case_prod_beta)
    next
      case (Inr st3)
      with loop \<open>lout = Inr st2\<close> assms(1) have "out = Inr (matchResult eng players st3, trace st3)"
        by (simp add: runMatch_def)
      with shutdown_isStart(1) [OF Inr] inv \<open>lout = Inr st2\<close> start show ?thesis
        by (simp add: matchTrace_def)
    qed
  qed
qed

text \<open>
  A match in which the first player's command is not found.  The slot starts failed, the
  match is played (a random move for the first player, the second player's answer), and
  then line 181 writes \<^verbatim>\<open>Quit\<close> to the nil writer of slot 0.
\<close>

lemma lost_run:
  "runMatch toy lostWorld (0, 1) (''a'', ''b'') ('''', '''') =
     Some (Inl (NilDereference,
        [Spawn 0 False, Spawn 1 True, Intn 2 1, Write 1 ''2'' True, Read 1 (Some ''2\<newline>'')]))"
  by (simp add: eval_defs turnLoop.simps lostWorld_def fairWorld_def)

lemma toy_no_Start: "\<forall>move. Stringer toy move \<noteq> Some ''Start''"
  by (simp add: toy_def toyString_def)

lemma lost_spawn: "runPlayer (os lostWorld 0) (get2 (''a'', ''b'') 0) (get2 ('''', '''') 0) = Inl LookPathError"
  by (simp add: runPlayer_def lostWorld_def fairWorld_def goodOs_def get2_def isSpace_def)

lemma deaf_spawn: "runPlayer (os deafWorld 0) (get2 (''a'', ''b'') 0) (get2 ('''', '''') 0) = Inr Discarded"
  by (simp add: runPlayer_def deafWorld_def fairWorld_def goodOs_def get2_def isSpace_def)

theorem start_sentinel_witness:
  "(\<forall>move. Stringer toy move \<noteq> Some ''Start'')
   \<and> (\<exists>out. runMatch toy lostWorld (0, 1) (''a'', ''b'') ('''', '''') = Some out
          \<and> filter isStart (matchTrace out) = [])
   \<and> (\<exists>out. runMatch toy deafWorld (0, 1) (''a'', ''b'') ('''', '''') = Some out
          \<and> filter isStart (matchTrace out) = [Write 0 ''Start'' True])"
proof -
  have w: "fprintln deafWorld [Spawn 0 True] 0 ''Start''"
    by (simp add: deafWorld_def fairWorld_def)
  have "\<exists>out. runMatch toy lostWorld (0, 1) (''a'', ''b'') ('''', '''') = Some out
          \<and> filter isStart (matchTrace out) = []"
    using start_sentinel [OF lost_run toy_no_Start] lost_run by (simp add: lost_spawn)
  moreover have "\<exists>out. runMatch toy deafWorld (0, 1) (''a'', ''b'') ('''', '''') = Some out
          \<and> filter isStart (matchTrace out) = [Write 0 ''Start'' True]"
    using start_sentinel [OF deaf_run toy_no_Start] deaf_run by (simp add: deaf_spawn w)
  ultimately show ?thesis using toy_no_Start by blast
qed

text \<open>
  C3 (the code does not do this).  When a player's command cannot be started, the slot
  starts failed and the match is played on fallback moves, but the match does not end
  normally: the loop of lines 180-183 calls \<^verbatim>\<open>fmt.Fprintln\<close> and \<^verbatim>\<open>Close\<close> on the
  nil writer of that slot and panics.  In the run below the first command is not found:
  no \<^verbatim>\<open>Result\<close> is returned, and the second player's process gets no
  \<^verbatim>\<open>Quit\<close>, is not closed and is not waited for.
\<close>

theorem spawn_failure_panics:
  "runMatch toy lostWorld (0, 1) (''a'', ''b'') ('''', '''') =
     Some (Inl (NilDereference,
        [Spawn 0 False, Spawn 1 True, Intn 2 1, Write 1 ''2'' True, Read 1 (Some ''2\<newline>'')]))"
  by (simp add: eval_defs turnLoop.simps lostWorld_def fairWorld_def)

subsection \<open>Panics in the turn loop\<close>

lemma reaches_turnLoop:
  assumes "reaches eng w st s"
  shows "turnLoop eng w st = turnLoop eng w s"
  using assms
proof (induction rule: reaches.induct)
  case start
  show ?case by simp
next
  case (step s s1)
  then show ?case by (simp add: turnLoop_step)
qed

lemma runMatch_panic_in_loop:
  assumes "reaches eng w (startPlayers eng w commands msgPath) s" and "\<not> over s"
    and "turn eng w s = Inl e"
  shows "runMatch eng w players commands msgPath = Some (Inl e)"
  using reaches_turnLoop [OF assms(1)] turnLoop_panic [OF assms(2,3)]
  by (simp add: runMatch_def)

lemma fallback_no_moves:
  assumes "Next eng (gamestate st) = int p" and "p < 2" and "get2 (mfailed st) p"
    and "ListMoves eng (gamestate st) = []"
  shows "turn eng w st = Inl (IntnInvalidArgument, trace st)"
proof -
  from assms(2) have "p = 0 \<or> p = 1" by arith
  then show ?thesis using assms(1,3,4) by (auto simp: turn_def fallbackMove_def Let_def)
qed

lemma fallback_rejected:
  assumes "Next eng (gamestate st) = int p" and "p < 2" and "get2 (mfailed st) p"
    and "ListMoves eng (gamestate st) \<noteq> []"
    and "\<not> fst (Execute eng (gamestate st) (chosenMove eng w st))"
  shows "turn eng w st = Inl (InvalidMoveGenerated,
           trace st @ [Intn (length (ListMoves eng (gamestate st)))
                          (randSource w (trace st) mod length (ListMoves eng (gamestate st)))])"
proof -
  from assms(2) have "p = 0 \<or> p = 1" by arith
  then show ?thesis using assms(1,3,4,5)
    by (auto simp: turn_def fallbackMove_def chosenMove_def Let_def split: prod.splits)
qed

lemma chosenMove_in_set:
  "ListMoves eng (gamestate st) \<noteq> [] \<Longrightarrow> chosenMove eng w st \<in> set (ListMoves eng (gamestate st))"
  by (simp add: chosenMove_def)

lemma fallback_contract:
  assumes "Next eng (gamestate st) = int p" and "p < 2" and "get2 (mfailed st) p"
    and "engineContract eng" and "\<not> Over eng (gamestate st)"
  shows "turn eng w st \<noteq> Inl (IntnInvalidArgument, tr) \<and> turn eng w st \<noteq> Inl (InvalidMoveGenerated, tr)"
proof -
  from assms(4,5) have ne: "ListMoves eng (gamestate st) \<noteq> []"
    and acc: "\<forall>m \<in> set (ListMoves eng (gamestate st)). fst (Execute eng (gamestate st) m)"
    by (auto simp: engineContract_def)
  from acc chosenMove_in_set [OF ne] have "fst (Execute eng (gamestate st) (chosenMove eng w st))"
    by blast
  moreover from assms(2) have "p = 0 \<or> p = 1" by arith
  ultimately show ?thesis using assms(1,3) ne
    by (auto simp: turn_def fallbackMove_def forward_def chosenMove_def Let_def
             split: prod.splits option.splits if_splits)
qed

text \<open>
  C5.  A fallback turn (the player to move has failed before) in a match that has come to
  state \<open>st\<close>: if the engine lists no move, or rejects the move drawn from its own
  list, \<^verbatim>\<open>runMatch\<close> panics there (\<^verbatim>\<open>rand.Intn(0)\<close>, respectively line 145); no
  player is marked failed and the match does not go on, and no caller recovers from a
  panic.  When the engine keeps its contract and the game is not over, a fallback turn
  takes neither of the two abort branches.
\<close>

theorem fallback_abort:
  assumes "reaches eng w (startPlayers eng w commands msgPath) st"
    and "\<not> over st" and "Next eng (gamestate st) = int p" and "p < 2" and "get2 (mfailed st) p"
  shows "(ListMoves eng (gamestate st) = [] \<longrightarrow>
            runMatch eng w players commands msgPath = Some (Inl (IntnInvalidArgument, trace st)))
       \<and> (ListMoves eng (gamestate st) \<noteq> [] \<and> \<not> fst (Execute eng (gamestate st) (chosenMove eng w st)) \<longrightarrow>
            runMatch eng w players commands msgPath =
              Some (Inl (InvalidMoveGenerated,
                trace st @ [Intn (length (ListMoves eng (gamestate st)))
                               (randSource w (trace st) mod length (ListMoves eng (gamestate st)))])))
       \<and> (engineContract eng \<and> \<not> Over eng (gamestate st) \<longrightarrow>
            (\<forall>tr. turn eng w st \<noteq> Inl (IntnInvalidArgument, tr)
                \<and> turn eng w st \<noteq> Inl (InvalidMoveGenerated, tr)))"
  using runMatch_panic_in_loop [OF assms(1,2)] fallback_no_moves [OF assms(3,4,5)]
    fallback_rejected [OF assms(3,4,5)] fallback_contract [OF assms(3,4,5)]
  by blast

lemmas toy_defs = toy_def noMovesToy_def rejectingToy_def toyExecute_def toyParse_def toyString_def
  goodOs_def fairWorld_def deafWorld_def

lemma deaf_start:
  assumes "E = toy \<or> E = noMovesToy \<or> E = rejectingToy"
  shows "startPlayers E deafWorld (''a'', ''b'') ('''', '''') =
           \<lparr>gamestate = (0, 0, 0), over = False, mfailed = (False, False), mtime = (0, 0),
            procs = (True, True), trace = [Spawn 0 True, Write 0 ''Start'' True, Spawn 1 True]\<rparr>"
  using assms
  by (auto simp: startPlayers_def startPlayer_def initialState_def runPlayer_def toy_defs
        get2_def set2_def isSpace_def Let_def)

lemma deaf_first_turn:
  assumes "E = toy \<or> E = noMovesToy \<or> E = rejectingToy"
  shows "turn E deafWorld (startPlayers E deafWorld (''a'', ''b'') ('''', '''')) = Inr deafFailed"
  unfolding deaf_start [OF assms] using assms
  by (auto simp: turn_def clientMove_def forward_def toy_defs deafFailed_def get2_def set2_def Let_def)

lemma deaf_reaches:
  assumes "E = toy \<or> E = noMovesToy \<or> E = rejectingToy"
  shows "reaches E deafWorld (startPlayers E deafWorld (''a'', ''b'') ('''', '''')) deafFailed"
proof (rule reaches.step [OF reaches.start _ deaf_first_turn [OF assms]])
  show "\<not> over (startPlayers E deafWorld (''a'', ''b'') ('''', ''''))"
    by (simp add: deaf_start [OF assms])
qed

lemma toy_contract: "engineContract toy"
  by (auto simp: engineContract_def toy_def toyExecute_def)

theorem fallback_abort_witness:
  "runMatch noMovesToy deafWorld (0, 1) (''a'', ''b'') ('''', '''') =
     Some (Inl (IntnInvalidArgument, trace deafFailed))
   \<and> runMatch rejectingToy deafWorld (0, 1) (''a'', ''b'') ('''', '''') =
     Some (Inl (InvalidMoveGenerated, trace deafFailed @ [Intn 2 1]))
   \<and> engineContract toy
   \<and> (\<forall>tr. turn toy deafWorld deafFailed \<noteq> Inl (IntnInvalidArgument, tr)
          \<and> turn toy deafWorld deafFailed \<noteq> Inl (InvalidMoveGenerated, tr))"
proof -
  have pre: "\<not> over deafFailed" "0 < (2::nat)" "get2 (mfailed deafFailed) 0"
    by (simp_all add: deafFailed_def get2_def)
  have n1: "Next noMovesToy (gamestate deafFailed) = int 0"
    and n2: "Next rejectingToy (gamestate deafFailed) = int 0"
    and n3: "Next toy (gamestate deafFailed) = int 0"
    by (simp_all add: toy_defs deafFailed_def)
  have r1: "reaches noMovesToy deafWorld (startPlayers noMovesToy deafWorld (''a'', ''b'') ('''', '''')) deafFailed"
    and r2: "reaches rejectingToy deafWorld (startPlayers rejectingToy deafWorld (''a'', ''b'') ('''', '''')) deafFailed"
    and r3: "reaches toy deafWorld (startPlayers toy deafWorld (''a'', ''b'') ('''', '''')) deafFailed"
    by (rule deaf_reaches, simp)+
  have "runMatch noMovesToy deafWorld (0, 1) (''a'', ''b'') ('''', '''') =
     Some (Inl (IntnInvalidArgument, trace deafFailed))"
    using fallback_abort [OF r1 pre(1) n1 pre(2,3), where players = "(0, 1)"]
    by (simp add: toy_defs)
  moreover have "runMatch rejectingToy deafWorld (0, 1) (''a'', ''b'') ('''', '''') =
     Some (Inl (InvalidMoveGenerated, trace deafFailed @ [Intn 2 1]))"
    using fallback_abort [OF r2 pre(1) n2 pre(2,3), where players = "(0, 1)"]
    by (simp add: toy_defs chosenMove_def deafFailed_def)
  moreover have "\<forall>tr. turn toy deafWorld deafFailed \<noteq> Inl (IntnInvalidArgument, tr)
          \<and> turn toy deafWorld deafFailed \<noteq> Inl (InvalidMoveGenerated, tr)"
    using fallback_abort [OF r3 pre(1) n3 pre(2,3), where players = "(0, 1)"] toy_contract
    by (simp add: toy_def deafFailed_def)
  ultimately show ?thesis using toy_contract by blast
qed

subsection \<open>Failures of the players\<close>

lemma turn_over_sync:
  assumes "rejectKeeps eng" and "over st = Over eng (gamestate st)" and "turn eng w st = Inr st'"
  shows "over st' = Over eng (gamestate st')"
proof -
  have keep: "\<And>s m b s'. Execute eng s m = (b, s') \<Longrightarrow> \<not> b \<Longrightarrow> s' = s"
    using assms(1) unfolding rejectKeeps_def by (metis fst_conv snd_conv)
  show ?thesis using assms(2,3)
    by (auto simp: turn_defs split: turn_splits dest: keep)
qed

lemma startPlayers_over_sync:
  "over (startPlayers eng w commands msgPath) = Over eng (gamestate (startPlayers eng w commands msgPath))"
  by (simp add: startPlayers_def startPlayer_def initialState_def Let_def split: sum.splits)

lemma reaches_over_sync:
  assumes "reaches eng w (startPlayers eng w commands msgPath) s" and "rejectKeeps eng"
  shows "over s = Over eng (gamestate s)"
  using assms
proof (induction rule: reaches.induct)
  case start
  show ?case by (rule startPlayers_over_sync)
next
  case (step s s1)
  then show ?case using turn_over_sync by blast
qed

lemma fallback_abort_unreachable:
  assumes "reaches eng w (startPlayers eng w commands msgPath) st" and "\<not> over st"
    and "Next eng (gamestate st) = int p" and "p < 2" and "get2 (mfailed st) p"
    and "engineContract eng" and "rejectKeeps eng"
  shows "turn eng w st \<noteq> Inl (IntnInvalidArgument, tr) \<and> turn eng w st \<noteq> Inl (InvalidMoveGenerated, tr)"
proof -
  from reaches_over_sync [OF assms(1,7)] assms(2) have "\<not> Over eng (gamestate st)" by simp
  then show ?thesis by (rule fallback_contract [OF assms(3,4,5,6)])
qed

text \<open>
  C6.  A turn that ends with a failed write is a turn in which a move was applied and
  forwarding it failed.  The write went to the opponent \<open>1 - p\<close> of the mover \<open>p\<close>, it
  is the opponent that is marked failed, the mover's flag is what it was before the turn,
  and the game state is the one the accepted move produced.
\<close>

theorem write_failure_marks_opponent:
  assumes "turn eng w st = Inr st'" and "Next eng (gamestate st) = int p" and "p < 2"
    and "trace st' = tr @ [Write q s False]"
  shows "q = 1 - p \<and> get2 (mfailed st') q \<and> get2 (mfailed st') p = get2 (mfailed st) p
       \<and> (\<exists>move. Execute eng (gamestate st) move = (True, gamestate st') \<and> Stringer eng move = Some s)"
proof -
  from assms(3) have "p = 0 \<or> p = 1" by arith
  then show ?thesis using assms(1,2,4)
    by (auto simp: turn_defs get2_def set2_def split: turn_splits)
qed

lemma mute_start:
  "startPlayers toy muteWorld (''a'', ''b'') ('''', '''') =
           \<lparr>gamestate = (0, 0, 0), over = False, mfailed = (False, False), mtime = (0, 0),
            procs = (True, True), trace = [Spawn 0 True, Write 0 ''Start'' True, Spawn 1 True]\<rparr>"
  by (simp add: startPlayers_def startPlayer_def initialState_def runPlayer_def toy_defs muteWorld_def
        get2_def set2_def isSpace_def Let_def)

lemma mute_turn:
  "turn toy muteWorld (startPlayers toy muteWorld (''a'', ''b'') ('''', '''')) =
     Inr \<lparr>gamestate = (1, 1, 0), over = False, mfailed = (False, True), mtime = (1, 0),
            procs = (True, True),
            trace = [Spawn 0 True, Write 0 ''Start'' True, Spawn 1 True, Read 0 (Some ''1\<newline>'')]
                    @ [Write 1 ''1'' False]\<rparr>"
  unfolding mute_start
  by (simp add: turn_def clientMove_def playLine_def forward_def toy_defs muteWorld_def get2_def set2_def Let_def)

theorem write_failure_marks_opponent_witness:
  "\<exists>st st'. turn toy muteWorld st = Inr st' \<and> Next toy (gamestate st) = int 0
     \<and> trace st' = [Spawn 0 True, Write 0 ''Start'' True, Spawn 1 True, Read 0 (Some ''1\<newline>'')]
                    @ [Write 1 ''1'' False]
     \<and> get2 (mfailed st') 1 \<and> \<not> get2 (mfailed st') 0
     \<and> Execute toy (gamestate st) 1 = (True, gamestate st') \<and> Stringer toy 1 = Some ''1''"
proof -
  let ?st = "startPlayers toy muteWorld (''a'', ''b'') ('''', '''')"
  let ?st' = "\<lparr>gamestate = (1, 1, 0), over = False, mfailed = (False, True), mtime = (1::real, 0),
            procs = (True, True),
            trace = [Spawn 0 True, Write 0 ''Start'' True, Spawn 1 True, Read 0 (Some ''1\<newline>'')]
                    @ [Write 1 ''1'' False]\<rparr>"
  have n: "Next toy (gamestate ?st) = int 0" unfolding mute_start by (simp add: toy_def)
  have t: "trace ?st' = [Spawn 0 True, Write 0 ''Start'' True, Spawn 1 True, Read 0 (Some ''1\<newline>'')]
                    @ [Write 1 ''1'' False]" by simp
  have e: "Execute toy (gamestate ?st) 1 = (True, gamestate ?st')" "Stringer toy 1 = Some ''1''"
    unfolding mute_start by (simp_all add: toy_def toyExecute_def toyString_def)
  from write_failure_marks_opponent [OF mute_turn n _ t]
  have "get2 (mfailed ?st') 1 \<and> \<not> get2 (mfailed ?st') 0" unfolding mute_start by (simp add: get2_def)
  with mute_turn n t e show ?thesis by blast
qed

lemma turn_bad_answer:
  assumes "Next eng (gamestate st) = int p" and "p < 2"
    and "\<not> get2 (mfailed st) p" and "get2 (procs st) p" and "badAnswer eng w p st"
  shows "\<exists>st'. turn eng w st = Inr st'
           \<and> mfailed st' = set2 (mfailed st) p True
           \<and> trace st' = trace st @ [Read p (fst (readString w (trace st) p))]
           \<and> over st' = over st
           \<and> (gamestate st' = gamestate st
                \<or> (\<exists>move. Execute eng (gamestate st) move = (False, gamestate st')))"
proof -
  from assms(2) have "p = 0 \<or> p = 1" by arith
  then show ?thesis using assms(1,3,4,5)
    by (auto simp: turn_defs badAnswer_def get2_def set2_def split: turn_splits)
qed



lemma startPlayers_failed_or_started:
  assumes "i < 2"
  shows "get2 (mfailed (startPlayers eng w commands msgPath)) i
       \<or> get2 (procs (startPlayers eng w commands msgPath)) i"
proof -
  from assms have "i = 0 \<or> i = 1" by arith
  then show ?thesis
    by (auto simp: startPlayers_def startPlayer_def initialState_def get2_def set2_def Let_def
             split: sum.splits)
qed

lemma reaches_failed_or_started:
  assumes "reaches eng w (startPlayers eng w commands msgPath) s" and "i < 2"
  shows "get2 (mfailed s) i \<or> get2 (procs s) i"
  using assms
proof (induction rule: reaches.induct)
  case start
  then show ?case by (rule startPlayers_failed_or_started)
next
  case (step s s1)
  from step.IH [OF step.prems] turn_procs [OF step.hyps(3)] turn_failed_mono [OF step.hyps(3)]
  show ?case by auto
qed

lemma bad_answer_in_match:
  assumes "reaches eng w (startPlayers eng w commands msgPath) st"
    and "Next eng (gamestate st) = int p" and "p < 2"
    and "\<not> get2 (mfailed st) p" and "badAnswer eng w p st"
  shows "\<exists>st'. turn eng w st = Inr st'
           \<and> mfailed st' = set2 (mfailed st) p True
           \<and> trace st' = trace st @ [Read p (fst (readString w (trace st) p))]
           \<and> over st' = over st
           \<and> (gamestate st' = gamestate st
                \<or> (\<exists>move. Execute eng (gamestate st) move = (False, gamestate st')))"
proof -
  from reaches_failed_or_started [OF assms(1,3)] assms(4) have "get2 (procs st) p" by simp
  with assms(2-5) show ?thesis by (intro turn_bad_answer)
qed







subsection \<open>The tournament\<close>

lemma runPairs_append:
  "runPairs body (ps @ qs) acc =
     (case runPairs body ps acc of
        None \<Rightarrow> None
      | Some (Inl e) \<Rightarrow> Some (Inl e)
      | Some (Inr acc1) \<Rightarrow> runPairs body qs acc1)"
  by (induction ps arbitrary: acc) (auto split: option.splits sum.splits)

lemma jLoop_all:
  "jLoop body False i js acc =
     (case runPairs body (map (\<lambda>j. (i, j)) (filter (\<lambda>j. i \<noteq> j) js)) acc of
        None \<Rightarrow> None
      | Some (Inl e) \<Rightarrow> Some (Inl e)
      | Some (Inr acc1) \<Rightarrow> Some (Inr (False, acc1)))"
  by (induction js arbitrary: acc) (auto split: option.splits sum.splits)

lemma iLoop_all:
  "iLoop body False len is acc =
     (case runPairs body (concat (map (\<lambda>i. map (\<lambda>j. (i, j)) (filter (\<lambda>j. i \<noteq> j) [0..<len])) is)) acc of
        None \<Rightarrow> None
      | Some (Inl e) \<Rightarrow> Some (Inl e)
      | Some (Inr acc1) \<Rightarrow> Some (Inr (False, acc1)))"
  by (induction "is" arbitrary: acc)
     (auto simp: jLoop_all runPairs_append split: option.splits sum.splits)

lemma rLoop_all:
  "rLoop body False len rs acc =
     (case runPairs body (schedule len (length rs)) acc of
        None \<Rightarrow> None
      | Some (Inl e) \<Rightarrow> Some (Inl e)
      | Some (Inr acc1) \<Rightarrow> Some (Inr (False, acc1)))"
  by (induction rs arbitrary: acc)
     (auto simp: iLoop_all runPairs_append schedule_def pairings_def split: option.splits sum.splits)

lemma upt_two: "2 \<le> len \<Longrightarrow> [0..<len] = 0 # 1 # [2..<len]"
  by (simp add: upt_rec numeral_2_eq_2)

lemma rLoop_first:
  assumes "2 \<le> len" and "rs \<noteq> []"
  shows "rLoop body True len rs acc =
     (case body 0 1 acc of
        None \<Rightarrow> None
      | Some (Inl e) \<Rightarrow> Some (Inl e)
      | Some (Inr acc1) \<Rightarrow> Some (Inr (True, acc1)))"
proof -
  from assms(2) obtain r rs' where rs: "rs = r # rs'" by (cases rs) auto
  have j: "jLoop body True 0 [0..<len] acc =
     (case body 0 1 acc of
        None \<Rightarrow> None
      | Some (Inl e) \<Rightarrow> Some (Inl e)
      | Some (Inr acc1) \<Rightarrow> Some (Inr (True, acc1)))"
    by (simp add: upt_two [OF assms(1)] split: option.splits sum.splits)
  have i: "iLoop body True len [0..<len] acc =
     (case body 0 1 acc of
        None \<Rightarrow> None
      | Some (Inl e) \<Rightarrow> Some (Inl e)
      | Some (Inr acc1) \<Rightarrow> Some (Inr (True, acc1)))"
    by (subst upt_two [OF assms(1)]) (simp add: j split: option.splits sum.splits)
  show ?thesis unfolding rs by (simp add: i split: option.splits sum.splits)
qed

lemma playPair_Inr:
  assumes "playPair eng worlds msgPath commands i j (rs, n) = Some (Inr (rs', n'))"
  shows "n < length rs \<and> n' = n + 1
       \<and> (\<exists>res tr. matchOf eng worlds msgPath commands n (i, j) = Some (Inr (res, tr)) \<and> rs' = rs[n := res])"
  using assms
  by (auto simp: playPair_def matchOf_def split: option.splits sum.splits if_splits)

lemma runPairs_playPair:
  assumes "runPairs (playPair eng worlds msgPath commands) ps (rs, n) = Some (Inr (rs', n'))"
  shows "n' = n + length ps \<and> length rs' = length rs \<and> (ps \<noteq> [] \<longrightarrow> n + length ps \<le> length rs)
       \<and> (\<forall>k < length ps. \<exists>tr. matchOf eng worlds msgPath commands (n + k) (ps ! k) = Some (Inr (rs' ! (n + k), tr)))
       \<and> (\<forall>k. k < n \<longrightarrow> rs' ! k = rs ! k)"
  using assms
proof (induction ps arbitrary: rs n)
  case Nil
  then show ?case by simp
next
  case (Cons ij ps)
  from Cons.prems obtain rs1 n1 where
    b: "playPair eng worlds msgPath commands (fst ij) (snd ij) (rs, n) = Some (Inr (rs1, n1))"
    and r: "runPairs (playPair eng worlds msgPath commands) ps (rs1, n1) = Some (Inr (rs', n'))"
    by (auto split: option.splits sum.splits)
  from playPair_Inr [OF b] obtain res tr where n: "n < length rs" and n1: "n1 = n + 1"
    and m: "matchOf eng worlds msgPath commands n ij = Some (Inr (res, tr))" and rs1: "rs1 = rs[n := res]"
    by auto
  note IH = Cons.IH [OF r]
  from IH n1 have n': "n' = n + length (ij # ps)" by simp
  from IH rs1 have len: "length rs' = length rs" by simp
  from IH n n1 rs1 have bound: "n + length (ij # ps) \<le> length rs"
    by (cases ps) auto
  from IH n1 have keep: "\<forall>k. k < n + 1 \<longrightarrow> rs' ! k = rs1 ! k" by simp
  have at: "\<forall>k < length (ij # ps). \<exists>tr. matchOf eng worlds msgPath commands (n + k) ((ij # ps) ! k)
              = Some (Inr (rs' ! (n + k), tr))"
  proof (intro allI impI)
    fix k assume k: "k < length (ij # ps)"
    show "\<exists>tr. matchOf eng worlds msgPath commands (n + k) ((ij # ps) ! k) = Some (Inr (rs' ! (n + k), tr))"
    proof (cases k)
      case 0
      from keep have "rs' ! n = rs1 ! n" by simp
      with rs1 n have "rs' ! n = res" by simp
      with m 0 show ?thesis by auto
    next
      case (Suc k')
      with k have "k' < length ps" by simp
      with IH obtain tr' where "matchOf eng worlds msgPath commands (n1 + k') (ps ! k') = Some (Inr (rs' ! (n1 + k'), tr'))"
        by blast
      with Suc n1 show ?thesis by auto
    qed
  qed
  have old: "\<forall>k. k < n \<longrightarrow> rs' ! k = rs ! k"
    using keep rs1 by auto
  from n' len bound at old show ?case by blast
qed


lemma length_filter_neq_upt: "i < len \<Longrightarrow> length (filter (\<lambda>j. i \<noteq> j) [0..<len]) = len - 1"
proof -
  assume i: "i < len"
  have "[0..<len] = [0..<i] @ i # [Suc i..<len]"
    using i by (metis less_imp_add_positive upt_add_eq_append upt_conv_Cons zero_le le_add1 add.commute)
  moreover have "filter (\<lambda>j. i \<noteq> j) [0..<i] = [0..<i]" by (rule filter_True) auto
  moreover have "filter (\<lambda>j. i \<noteq> j) [Suc i..<len] = [Suc i..<len]" by (rule filter_True) auto
  ultimately have "filter (\<lambda>j. i \<noteq> j) [0..<len] = [0..<i] @ [Suc i..<len]" by simp
  then show ?thesis using i by simp
qed

lemma length_pairings: "length (pairings len) = len * (len - 1)"
proof -
  have "length (pairings len) = (\<Sum>i\<leftarrow>[0..<len]. length (filter (\<lambda>j. i \<noteq> j) [0..<len]))"
    by (simp add: pairings_def length_concat comp_def)
  also have "\<dots> = (\<Sum>i\<leftarrow>[0..<len]. len - 1)"
    by (rule arg_cong [where f = sum_list], rule map_cong) (simp_all add: length_filter_neq_upt)
  also have "\<dots> = len * (len - 1)"
    by (simp add: sum_list_triv)
  finally show ?thesis .
qed

lemma length_schedule: "length (schedule len rounds) = rounds * len * (len - 1)"
  by (simp add: schedule_def length_concat length_pairings sum_list_replicate comp_def)

lemma wrap64_cong: "x mod 2 ^ 64 = y mod 2 ^ 64 \<Longrightarrow> wrap64 x = wrap64 y"
proof -
  assume "x mod 2 ^ 64 = y mod 2 ^ 64"
  then have "(x + 2 ^ 63) mod 2 ^ 64 = (y + 2 ^ 63) mod 2 ^ 64"
    by (rule mod_add_cong) (rule refl)
  then show ?thesis unfolding wrap64_def by (rule arg_cong)
qed

lemma wrap64_mod: "wrap64 x mod 2 ^ 64 = x mod 2 ^ 64"
proof -
  have "wrap64 x mod 2 ^ 64 = ((x + 2 ^ 63) mod 2 ^ 64 - 2 ^ 63) mod 2 ^ 64"
    unfolding wrap64_def ..
  also have "\<dots> = (x + 2 ^ 63 - 2 ^ 63) mod 2 ^ 64"
    by (rule mod_diff_left_eq)
  also have "x + 2 ^ 63 - 2 ^ 63 = x" by (rule add_diff_cancel_right')
  finally show ?thesis .
qed

lemma two_64: "(2::int) ^ 64 = 2 ^ 63 + 2 ^ 63"
  by simp

lemma wrap64_id: "- (2 ^ 63) \<le> x \<Longrightarrow> x < 2 ^ 63 \<Longrightarrow> wrap64 x = x"
proof -
  assume a: "- (2 ^ 63) \<le> x" "x < 2 ^ 63"
  define H :: int where "H = 2 ^ 63"
  from a have "0 \<le> x + H" "x + H < H + H" unfolding H_def by linarith+
  then have "(x + H) mod (H + H) = x + H" by (rule mod_pos_pos_trivial)
  then show ?thesis unfolding wrap64_def two_64 H_def by simp
qed

lemma wrap64_le: "0 \<le> x \<Longrightarrow> wrap64 x \<le> x"
proof -
  assume "0 \<le> x"
  define H :: int where "H = 2 ^ 63"
  have "0 \<le> H" unfolding H_def by simp
  with \<open>0 \<le> x\<close> have "0 \<le> x + H" by simp
  then have "(x + H) mod (H + H) \<le> x + H"
    by (rule zmod_le_nonneg_dividend)
  then show ?thesis unfolding wrap64_def two_64 H_def by simp
qed

lemma wrap64_less: "wrap64 x < 2 ^ 63"
proof -
  define H :: int where "H = 2 ^ 63"
  have "0 < H + H" unfolding H_def by simp
  then have "(x + H) mod (H + H) < H + H" by (rule pos_mod_bound)
  then show ?thesis unfolding wrap64_def two_64 H_def by simp
qed

lemma wrap64_mult:
  "wrap64 (wrap64 a * b) = wrap64 (a * b)"
proof (rule wrap64_cong)
  have "(wrap64 a * b) mod 2 ^ 64 = (wrap64 a mod 2 ^ 64 * b) mod 2 ^ 64"
    by (rule mod_mult_left_eq [symmetric])
  also have "\<dots> = (a mod 2 ^ 64 * b) mod 2 ^ 64" unfolding wrap64_mod ..
  also have "\<dots> = (a * b) mod 2 ^ 64" by (rule mod_mult_left_eq)
  finally show "(wrap64 a * b) mod 2 ^ 64 = (a * b) mod 2 ^ 64" .
qed

lemma numResults_all:
  "numResults len rounds False = wrap64 (rounds * int len * (int len - 1))"
  by (simp add: numResults_def wrap64_mult)

lemma numGames_all:
  "numGames len rounds False = wrap64 (rounds * (int len - 1) * 2)"
  by (simp add: numGames_def wrap64_mult)

lemma runMatch_player:
  assumes "runMatch eng w players commands msgPath = Some (Inr (result, tr))"
  shows "player result = players"
  using assms by (auto elim: runMatch_result)

lemma schedule_nonempty: "2 \<le> len \<Longrightarrow> 1 \<le> rounds \<Longrightarrow> schedule len rounds \<noteq> []"
proof -
  assume "2 \<le> len" "1 \<le> rounds"
  then have "0 < rounds * len * (len - 1)" by simp
  then have "0 < length (schedule len rounds)" by (simp add: length_schedule)
  then show ?thesis by auto
qed

lemma runTournament_all:
  assumes "runTournament eng maxLen worlds msgPath commands rounds False = Some (Inr results)"
    and "2 \<le> length commands" and "1 \<le> rounds"
  shows "length results = nat rounds * length commands * (length commands - 1)
       \<and> map player results = schedule (length commands) (nat rounds)
       \<and> (\<forall>k < length results. \<exists>tr. matchOf eng worlds msgPath commands k
                (schedule (length commands) (nat rounds) ! k) = Some (Inr (results ! k, tr)))
       \<and> rounds * int (length commands) * (int (length commands) - 1) < 2 ^ 63"
proof -
  let ?len = "length commands"
  let ?W = "numResults ?len rounds False"
  let ?S = "schedule ?len (nat rounds)"
  let ?P = "rounds * int ?len * (int ?len - 1)"
  from assms(1) have W0: "0 \<le> ?W"
    by (auto simp: runTournament_def split: if_splits)
  from assms(1) W0 obtain brk n where
    "rLoop (playPair eng worlds msgPath commands) False ?len [0..<nat rounds]
        (replicate (nat ?W) zeroResult, 0) = Some (Inr (brk, results, n))"
    by (auto simp: runTournament_def split: if_splits option.splits sum.splits)
  then have run: "runPairs (playPair eng worlds msgPath commands) ?S
        (replicate (nat ?W) zeroResult, 0) = Some (Inr (results, n))"
    by (auto simp: rLoop_all split: option.splits sum.splits)
  note acc = runPairs_playPair [OF run]
  from assms(2,3) have ne: "?S \<noteq> []" by (intro schedule_nonempty) auto
  from acc have lenr: "length results = nat ?W" by simp
  from acc ne have le: "length ?S \<le> nat ?W" by simp
  have P: "int (length ?S) = ?P"
    using assms(2,3) by (simp add: length_schedule of_nat_diff)
  from le W0 P have "?P \<le> ?W" by linarith
  moreover have "0 \<le> ?P" using P by (metis of_nat_0_le_iff)
  then have "?W \<le> ?P" unfolding numResults_all by (rule wrap64_le)
  ultimately have WP: "?W = ?P" by simp
  have "?W < 2 ^ 63" unfolding numResults_all by (rule wrap64_less)
  then have small: "?P < 2 ^ 63" unfolding WP .
  from WP P lenr have len_eq: "length results = length ?S" by linarith
  have at: "\<forall>k < length results. \<exists>tr. matchOf eng worlds msgPath commands k (?S ! k)
              = Some (Inr (results ! k, tr))"
    using acc len_eq by simp
  have "map player results = ?S"
  proof (rule nth_equalityI)
    show "length (map player results) = length ?S" using len_eq by simp
  next
    fix k assume "k < length (map player results)"
    then have k: "k < length results" by simp
    with at obtain tr where "matchOf eng worlds msgPath commands k (?S ! k) = Some (Inr (results ! k, tr))"
      by blast
    then have "player (results ! k) = ?S ! k"
      unfolding matchOf_def by (rule runMatch_player)
    with k show "map player results ! k = ?S ! k" by simp
  qed
  with len_eq at small show ?thesis by (simp add: length_schedule)
qed

lemma schedule_first:
  assumes "2 \<le> len" and "1 \<le> rounds"
  shows "take 1 (schedule len rounds) = [(0, 1)]"
proof -
  from assms(2) obtain r where r: "rounds = Suc r" by (cases rounds) auto
  have "pairings len = (0, 1) # map (\<lambda>j. (0, j)) (filter (\<lambda>j. 0 \<noteq> j) [2..<len])
          @ concat (map (\<lambda>i. map (\<lambda>j. (i, j)) (filter (\<lambda>j. i \<noteq> j) [0..<len])) (1 # [2..<len]))"
    unfolding pairings_def by (subst (2) upt_two [OF assms(1)]) (simp add: upt_two [OF assms(1)])
  then show ?thesis by (simp add: schedule_def r)
qed

lemma runTournament_single:
  assumes "runTournament eng maxLen worlds msgPath commands rounds True = Some (Inr results)"
    and "2 \<le> length commands" and "1 \<le> rounds"
  shows "length results = 1
       \<and> map player results = take 1 (schedule (length commands) (nat rounds))
       \<and> (\<exists>tr. matchOf eng worlds msgPath commands 0 (0, 1) = Some (Inr (results ! 0, tr)))"
proof -
  from assms(3) have ne: "[0..<nat rounds] \<noteq> []" by simp
  from assms(1) obtain brk n where
    "rLoop (playPair eng worlds msgPath commands) True (length commands) [0..<nat rounds]
        (replicate 1 zeroResult, 0) = Some (Inr (brk, results, n))"
    by (auto simp: runTournament_def numResults_def split: if_splits option.splits sum.splits)
  then have "playPair eng worlds msgPath commands 0 1 ([zeroResult], 0) = Some (Inr (results, n))"
    by (auto simp: rLoop_first [OF assms(2) ne] split: option.splits sum.splits)
  from playPair_Inr [OF this] obtain res tr where
    m: "matchOf eng worlds msgPath commands 0 (0, 1) = Some (Inr (res, tr))" and rs: "results = [res]"
    by auto
  from m have "player res = (0, 1)" unfolding matchOf_def by (rule runMatch_player)
  with m rs schedule_first [of "length commands" "nat rounds"] assms(2,3) show ?thesis
    by auto
qed




lemma amd64MaxLen_value: "amd64MaxLen = 3909374676536"
  by (simp add: amd64MaxLen_def)



lemma fair_run:
  assumes "c0 = ''a'' \<or> c0 = ''b''" and "c1 = ''a'' \<or> c1 = ''b''"
  shows "runMatch toy fairWorld pl (c0, c1) ('''', '''') =
     Some (Inr (\<lparr>player = pl, score = (1, 2), failed = (False, False), points = (1, 2),
                  time = (1, 1)\<rparr>,
        [Spawn 0 True, Write 0 ''Start'' True, Spawn 1 True, Read 0 (Some ''1\<newline>''),
         Write 1 ''1'' True, Read 1 (Some ''2\<newline>''),
         Write 0 ''Quit'' True, Close 0, Write 1 ''Quit'' True, Close 1,
         Wait 0, Wait 1]))"
  using assms by (auto simp: eval_defs turnLoop.simps fairWorld_def)

lemma schedule_2_1: "schedule 2 1 = [(0, 1), (1, 0)]"
  by (simp add: schedule_def pairings_def upt_rec numeral_2_eq_2)

lemma schedule_2_Suc: "schedule 2 (Suc 0) = [(0, 1), (1, 0)]"
  using schedule_2_1 by simp




text \<open>
  The other way in which the number of rounds can be too large: with four players and
  \<open>2\<^sup>6\<^sup>2\<close> rounds the product \<open>r \<sqdot> n \<sqdot> (n - 1)\<close> wraps around to 0 in Go's
  \<^verbatim>\<open>int\<close>.  The slice of results is empty, the first match is played, and line 292,
  which stores its result, panics.
\<close>

lemma rLoop_panic:
  assumes "iLoop body firstOnly len [0..<len] acc = Some (Inl e)" and "rs \<noteq> []"
  shows "rLoop body firstOnly len rs acc = Some (Inl e)"
  using assms by (cases rs) simp_all

lemma upt_4: "[0..<4] = [0, 1, 2, 3]"
  by (simp add: upt_rec)

lemma overflow_first_match:
  "iLoop (playPair toy fairWorlds '''' [''a'', ''b'', ''a'', ''b'']) False 4 [0..<4] ([], 0) =
     Some (Inl (IndexOutOfRange,
        [Spawn 0 True, Write 0 ''Start'' True, Spawn 1 True, Read 0 (Some ''1\<newline>''),
         Write 1 ''1'' True, Read 1 (Some ''2\<newline>''),
         Write 0 ''Quit'' True, Close 0, Write 1 ''Quit'' True, Close 1,
         Wait 0, Wait 1]))"
  by (simp add: upt_4 playPair_def fair_run msgFilePath_def fairWorlds_def)

lemma tournament_overflow:
  "runTournament toy amd64MaxLen fairWorlds '''' [''a'', ''b'', ''a'', ''b''] (2 ^ 62) False =
     Some (Inl (IndexOutOfRange,
        [Spawn 0 True, Write 0 ''Start'' True, Spawn 1 True, Read 0 (Some ''1\<newline>''),
         Write 1 ''1'' True, Read 1 (Some ''2\<newline>''),
         Write 0 ''Quit'' True, Close 0, Write 1 ''Quit'' True, Close 1,
         Wait 0, Wait 1]))"
proof -
  have len: "length [''a'', ''b'', ''a'', ''b''] = 4" by simp
  have n: "numResults 4 (2 ^ 62) False = 0"
    by (simp add: numResults_def wrap64_def)
  have ne: "[0..<nat (2 ^ 62)] \<noteq> []" by simp
  have "rLoop (playPair toy fairWorlds '''' [''a'', ''b'', ''a'', ''b'']) False 4
          [0..<nat (2 ^ 62)] ([], 0) =
     Some (Inl (IndexOutOfRange,
        [Spawn 0 True, Write 0 ''Start'' True, Spawn 1 True, Read 0 (Some ''1\<newline>''),
         Write 1 ''1'' True, Read 1 (Some ''2\<newline>''),
         Write 0 ''Quit'' True, Close 0, Write 1 ''Quit'' True, Close 1,
         Wait 0, Wait 1]))"
    by (rule rLoop_panic [OF overflow_first_match ne])
  then show ?thesis
    unfolding runTournament_def len n by simp
qed

subsection \<open>The statistics\<close>

lemma addSide_Inr:
  assumes "addSide len result i st = Inr st'"
  shows "get2 (player result) i < len" and "get2 (player result) (1 - i) < len"
    and "st' = countSide result i st"
  using assms by (simp_all add: addSide_def split: if_splits)

lemma countSide_counts:
  "gamesWon (countSide result i st) =
           (if get2 (score result) (1 - i) < get2 (score result) i
            then (gamesWon st)[get2 (player result) i := gamesWon st ! get2 (player result) i + 1]
            else gamesWon st)"
  "gamesTied (countSide result i st) =
           (if get2 (score result) i = get2 (score result) (1 - i)
            then (gamesTied st)[get2 (player result) i := gamesTied st ! get2 (player result) i + 1]
            else gamesTied st)"
  "gamesLost (countSide result i st) =
           (if get2 (score result) i < get2 (score result) (1 - i)
            then (gamesLost st)[get2 (player result) i := gamesLost st ! get2 (player result) i + 1]
            else gamesLost st)"
  "winLoss (countSide result i st) =
           (if get2 (score result) (1 - i) < get2 (score result) i
            then (winLoss st)[get2 (player result) i := (winLoss st ! get2 (player result) i)
                   [get2 (player result) (1 - i) :=
                      winLoss st ! get2 (player result) i ! get2 (player result) (1 - i) + 1]]
            else winLoss st)"
  "totalPoints (countSide result i st) =
           (totalPoints st)[get2 (player result) i := totalPoints st ! get2 (player result) i + get2 (points result) i]"
  "gamesFailed (countSide result i st) =
           (if get2 (failed result) i
            then (gamesFailed st)[get2 (player result) i := gamesFailed st ! get2 (player result) i + 1]
            else gamesFailed st)"
  by (simp_all add: countSide_def Let_def)

lemma countSide_times:
  "timeUsed (countSide result i st) =
     (timeUsed st)[get2 (player result) i := timeUsed st ! get2 (player result) i + get2 (time result) i]"
  "timeMax (countSide result i st) =
     (if timeMax st ! get2 (player result) i < get2 (time result) i
      then (timeMax st)[get2 (player result) i := get2 (time result) i] else timeMax st)"
  by (simp_all add: countSide_def Let_def)




lemma wellFormed_initStats: "wellFormed len (initStats len)"
  by (simp add: wellFormed_def initStats_def list_all_length)


subsection \<open>The ranking\<close>

lemma lessPair_irrefl: "\<not> lessPair a a"
  by (simp add: lessPair_def)

lemma lessPair_trans: "lessPair a b \<Longrightarrow> lessPair b c \<Longrightarrow> lessPair a c"
  by (auto simp: lessPair_def)

lemma lessPair_total: "a \<noteq> b \<Longrightarrow> lessPair a b \<or> lessPair b a"
  by (cases a, cases b) (auto simp: lessPair_def)

lemma lessPair_asym: "lessPair a b \<Longrightarrow> \<not> lessPair b a"
  by (auto simp: lessPair_def)

lemma set_insertPair [simp]: "set (insertPair x ys) = insert x (set ys)"
  by (induction ys) auto

lemma mset_insertPair [simp]: "mset (insertPair x ys) = add_mset x (mset ys)"
  by (induction ys) auto

lemma sorted_insertPair:
  "sorted_wrt (\<lambda>a b. \<not> lessPair b a) ys \<Longrightarrow> sorted_wrt (\<lambda>a b. \<not> lessPair b a) (insertPair x ys)"
proof (induction ys)
  case Nil
  show ?case by simp
next
  case (Cons y ys)
  show ?case
  proof (cases "lessPair y x")
    case True
    then have "\<not> lessPair x y" by (rule lessPair_asym)
    moreover have "\<forall>z \<in> set ys. \<not> lessPair z y" using Cons.prems by simp
    ultimately show ?thesis using True Cons by auto
  next
    case False
    have "\<forall>z \<in> set ys. \<not> lessPair z x"
    proof
      fix z assume "z \<in> set ys"
      with Cons.prems have "\<not> lessPair z y" by simp
      show "\<not> lessPair z x"
      proof
        assume zx: "lessPair z x"
        show False
        proof (cases "x = y")
          case True with zx \<open>\<not> lessPair z y\<close> show False by simp
        next
          case False
          with \<open>\<not> lessPair y x\<close> lessPair_total have "lessPair x y" by blast
          with zx have "lessPair z y" by (rule lessPair_trans)
          with \<open>\<not> lessPair z y\<close> show False ..
        qed
      qed
    qed
    with False Cons.prems show ?thesis by simp
  qed
qed

lemma mset_sortSort [simp]: "mset (sortSort ips) = mset ips"
  unfolding sortSort_def by (induction ips) auto

lemma set_sortSort [simp]: "set (sortSort ips) = set ips"
  unfolding sortSort_def by (induction ips) auto

lemma sorted_sortSort: "sorted_wrt (\<lambda>a b. \<not> lessPair b a) (sortSort ips)"
  unfolding sortSort_def by (induction ips) (auto intro: sorted_insertPair)

lemma distinct_sortSort: "distinct (sortSort ips) = distinct ips"
  by (metis mset_sortSort mset_eq_imp_distinct_iff)

lemma strict_sorted_unique:
  assumes "sorted_wrt lessPair xs" and "sorted_wrt lessPair ys" and "mset xs = mset ys"
  shows "xs = ys"
  using assms
proof (induction xs arbitrary: ys)
  case Nil
  then show ?case by simp
next
  case (Cons x xs)
  from Cons.prems(3) obtain y ys' where ys: "ys = y # ys'" by (cases ys) auto
  have "x = y"
  proof (rule ccontr)
    assume ne: "x \<noteq> y"
    from Cons.prems(3) ys have "x \<in> set (y # ys')" by (metis list.set_intros(1) mset_eq_setD)
    with ne have "x \<in> set ys'" by simp
    with Cons.prems(2) ys have "lessPair y x" by simp
    from Cons.prems(3) ys have "y \<in> set (x # xs)" by (metis list.set_intros(1) mset_eq_setD)
    with ne have "y \<in> set xs" by auto
    with Cons.prems(1) have "lessPair x y" by simp
    with \<open>lessPair y x\<close> lessPair_asym show False by blast
  qed
  moreover from Cons.prems ys \<open>x = y\<close> have "xs = ys'"
    by (intro Cons.IH) auto
  ultimately show ?case using ys by simp
qed

lemma sorted_distinct_strict:
  assumes "sorted_wrt (\<lambda>a b. \<not> lessPair b a) xs" and "distinct xs"
  shows "sorted_wrt lessPair xs"
  using assms
proof (induction xs)
  case Nil
  show ?case by simp
next
  case (Cons x xs)
  have "\<forall>z \<in> set xs. lessPair x z"
  proof
    fix z assume z: "z \<in> set xs"
    with Cons.prems have "\<not> lessPair z x" and "x \<noteq> z" by auto
    with lessPair_total show "lessPair x z" by blast
  qed
  with Cons show ?case by simp
qed

lemma sortSort_unique:
  assumes "mset ys = mset ips" and "sorted_wrt (\<lambda>a b. \<not> lessPair b a) ys" and "distinct ips"
  shows "ys = sortSort ips"
proof (rule strict_sorted_unique)
  from assms(1,3) have "distinct ys" by (metis mset_eq_imp_distinct_iff)
  with assms(2) show "sorted_wrt lessPair ys" by (rule sorted_distinct_strict)
  from assms(3) have "distinct (sortSort ips)" by (simp add: distinct_sortSort)
  with sorted_sortSort show "sorted_wrt lessPair (sortSort ips)" by (rule sorted_distinct_strict)
  from assms(1) show "mset ys = mset (sortSort ips)" by simp
qed

lemma length_Swap [simp]: "length (Swap ips i j) = length ips"
  by (simp add: Swap_def)

lemma length_ReverseLoop [simp]: "length (ReverseLoop ips i j) = length ips"
proof (induction ips i j rule: ReverseLoop.induct)
  case (1 ips i j)
  then show ?case by (subst ReverseLoop.simps) simp
qed

lemma nth_ReverseLoop:
  assumes "j < length ips" and "k < length ips"
  shows "ReverseLoop ips i j ! k = (if i \<le> k \<and> k \<le> j then ips ! (i + j - k) else ips ! k)"
  using assms
proof (induction ips i j rule: ReverseLoop.induct)
  case (1 ips i j)
  show ?case
  proof (cases "i < j")
    case False
    then have "i \<le> k \<and> k \<le> j \<Longrightarrow> i + j - k = k" by auto
    with False show ?thesis by (subst ReverseLoop.simps) auto
  next
    case True
    have IH: "ReverseLoop (Swap ips i j) (i + 1) (j - 1) ! k =
      (if i + 1 \<le> k \<and> k \<le> j - 1 then Swap ips i j ! (i + 1 + (j - 1) - k) else Swap ips i j ! k)"
      using "1.IH" [OF True] "1.prems" True by simp
    have eq: "ReverseLoop ips i j = ReverseLoop (Swap ips i j) (i + 1) (j - 1)"
      using True by (subst ReverseLoop.simps) simp
    consider "k < i \<or> j < k" | "k = i" | "k = j" | "i < k \<and> k < j" by linarith
    then show ?thesis
    proof cases
      case 1
      with True "1.prems" show ?thesis unfolding eq IH by (auto simp: Swap_def)
    next
      case 2
      with True "1.prems" show ?thesis unfolding eq IH by (auto simp: Swap_def)
    next
      case 3
      with True "1.prems" show ?thesis unfolding eq IH by (auto simp: Swap_def)
    next
      case 4
      then have "i + 1 + (j - 1) - k = i + j - k" and "i < i + j - k" and "i + j - k < j" by auto
      with 4 True "1.prems" show ?thesis unfolding eq IH by (auto simp: Swap_def)
    qed
  qed
qed

lemma Reverse_rev: "Reverse ips = rev ips"
proof (rule nth_equalityI)
  show "length (Reverse ips) = length (rev ips)" by (simp add: Reverse_def)
next
  fix k assume "k < length (Reverse ips)"
  then have k: "k < length ips" by (simp add: Reverse_def)
  then have "length ips - 1 < length ips" by simp
  from nth_ReverseLoop [OF this k, of 0] k
  show "Reverse ips ! k = rev ips ! k"
    by (simp add: Reverse_def rev_nth)
qed

lemma pairs_distinct:
  "distinct (map (\<lambda>i. \<lparr>first = tp ! i, second = - int i\<rparr>) [0..<len])"
  by (simp add: distinct_map inj_on_def)

lemma pointsPlayers_rev:
  "pointsPlayers len tp = rev (sortSort (map (\<lambda>i. \<lparr>first = tp ! i, second = - int i\<rparr>) [0..<len]))"
  by (simp add: pointsPlayers_def Reverse_rev)

lemma pointsPlayers_sorted:
  "sorted_wrt (\<lambda>a b. lessPair b a) (pointsPlayers len tp)"
proof -
  let ?ps = "map (\<lambda>i. \<lparr>first = tp ! i, second = - int i\<rparr>) [0..<len]"
  have "distinct (sortSort ?ps)" by (simp only: distinct_sortSort pairs_distinct)
  with sorted_sortSort have "sorted_wrt lessPair (sortSort ?ps)" by (rule sorted_distinct_strict)
  then show ?thesis by (simp add: pointsPlayers_rev sorted_wrt_rev)
qed

lemma pointsPlayers_set:
  "set (pointsPlayers len tp) = (\<lambda>i. \<lparr>first = tp ! i, second = - int i\<rparr>) ` {0..<len}"
  by (simp add: pointsPlayers_rev)

lemma ranking_mset: "mset (ranking len tp) = mset [0..<len]"
proof -
  let ?ps = "map (\<lambda>i. \<lparr>first = tp ! i, second = - int i\<rparr>) [0..<len]"
  have "mset (ranking len tp) = image_mset (\<lambda>ip. nat (- second ip)) (mset (sortSort ?ps))"
    by (simp add: ranking_def pointsPlayers_rev)
  also have "\<dots> = mset (map (\<lambda>ip. nat (- second ip)) ?ps)"
    by (simp only: mset_sortSort mset_map)
  also have "map (\<lambda>ip. nat (- second ip)) ?ps = [0..<len]"
    by (simp add: comp_def)
  finally show ?thesis .
qed

lemma ranking_sorted:
  "sorted_wrt (\<lambda>a b. tp ! a > tp ! b \<or> (tp ! a = tp ! b \<and> a < b)) (ranking len tp)"
proof -
  have "sorted_wrt (\<lambda>x y. tp ! nat (- second x) > tp ! nat (- second y)
            \<or> (tp ! nat (- second x) = tp ! nat (- second y) \<and> nat (- second x) < nat (- second y)))
          (pointsPlayers len tp)"
  proof (rule sorted_wrt_mono_rel [OF _ pointsPlayers_sorted])
    fix x y assume "x \<in> set (pointsPlayers len tp)" and "y \<in> set (pointsPlayers len tp)"
      and "lessPair y x"
    then show "tp ! nat (- second x) > tp ! nat (- second y)
            \<or> (tp ! nat (- second x) = tp ! nat (- second y) \<and> nat (- second x) < nat (- second y))"
      by (auto simp: pointsPlayers_set lessPair_def)
  qed
  then show ?thesis by (simp add: ranking_def sorted_wrt_map)
qed

lemma ranking_set: "set (ranking len tp) = {0..<len}"
  using ranking_mset [of len tp] by (metis mset_eq_setD set_upt)

lemma ranking_length: "length (ranking len tp) = len"
  using ranking_mset [of len tp] by (metis mset_eq_length length_upt diff_zero)

lemma ranking_rankSpec: "ranking len tp = rankSpec len tp"
proof -
  let ?f = "\<lambda>i. - (tp ! i)"
  let ?Q = "\<lambda>a b. tp ! a > tp ! b \<or> (tp ! a = tp ! b \<and> a < b)"
  let ?ys = "ranking len tp"
  have "sort_key ?f [0..<len] = ?ys"
  proof (rule properties_for_sort_key)
    show "mset ?ys = mset [0..<len]" by (rule ranking_mset)
  next
    have "sorted_wrt (\<lambda>a b. ?f a \<le> ?f b) ?ys"
      by (rule sorted_wrt_mono_rel [OF _ ranking_sorted]) auto
    then show "sorted (map ?f ?ys)" by (simp add: sorted_wrt_map)
  next
    fix k assume "k \<in> set ?ys"
    let ?P = "\<lambda>x. ?f k = ?f x"
    have "sorted_wrt ?Q (filter ?P ?ys)"
      using ranking_sorted by (rule sorted_wrt_filter)
    then have a: "sorted_wrt (<) (filter ?P ?ys)"
      by (rule sorted_wrt_mono_rel [rotated]) auto
    have b: "sorted_wrt (<) (filter ?P [0..<len])"
      by (rule sorted_wrt_filter) simp
    have "set (filter ?P ?ys) = set (filter ?P [0..<len])"
      by (simp add: ranking_set)
    with a b show "filter ?P ?ys = filter ?P [0..<len]"
      by (intro strict_sorted_equal) auto
  qed
  then show ?thesis by (simp add: rankSpec_def)
qed

lemma rankingRows_players:
  "map (\<lambda>row. fst (snd row)) (rankingRows float64 len st g) = ranking len (totalPoints st)"
  by (simp add: rankingRows_def comp_def case_prod_beta map_snd_enumerate)

lemma rankingRows_ranks:
  "map fst (rankingRows float64 len st g) = [1..<len + 1]"
proof -
  let ?R = "ranking len (totalPoints st)"
  have "map fst (rankingRows float64 len st g) = map (\<lambda>x. Suc (fst x)) (enumerate 0 ?R)"
    by (simp add: rankingRows_def comp_def case_prod_beta)
  also have "\<dots> = map Suc (map fst (enumerate 0 ?R))"
    by (simp only: map_map comp_def)
  also have "map fst (enumerate 0 ?R) = [0..<len]"
    by (simp only: map_fst_enumerate ranking_length add_0)
  also have "map Suc [0..<len] = [1..<len + 1]"
    by (simp add: map_Suc_upt)
  finally show ?thesis .
qed

lemma ranking_example: "ranking 3 [3, 5, 3] = [1, 0, 2]"
  by (simp add: ranking_def pointsPlayers_rev sortSort_def lessPair_def upt_rec numeral_3_eq_3)

subsection \<open>The games of a player, and the statistics of a tournament\<close>

lemma upt_split: "p < len \<Longrightarrow> [0..<len] = [0..<p] @ p # [Suc p..<len]"
  by (metis less_imp_add_positive upt_add_eq_append upt_conv_Cons zero_le le_add1 add.commute)

lemma count_row:
  assumes "p < len" and "i < len"
  shows "length (filter (\<lambda>ij. fst ij = p \<or> snd ij = p) (map (\<lambda>j. (i, j)) (filter (\<lambda>j. i \<noteq> j) [0..<len])))
           = (if i = p then len - 1 else 1)"
proof (cases "i = p")
  case True
  then have "filter (\<lambda>ij. fst ij = p \<or> snd ij = p) (map (\<lambda>j. (i, j)) (filter (\<lambda>j. i \<noteq> j) [0..<len]))
          = map (\<lambda>j. (i, j)) (filter (\<lambda>j. i \<noteq> j) [0..<len])"
    by (intro filter_True) auto
  with True assms show ?thesis by (simp add: length_filter_neq_upt)
next
  case False
  have "filter (\<lambda>ij. fst ij = p \<or> snd ij = p) (map (\<lambda>j. (i, j)) (filter (\<lambda>j. i \<noteq> j) [0..<len]))
          = map (\<lambda>j. (i, j)) (filter (\<lambda>j. j = p) [0..<len])"
  proof -
    have "(\<lambda>x. i \<noteq> x \<and> (i = p \<or> x = p)) = (\<lambda>j. j = p)" using False by auto
    then show ?thesis by (simp add: filter_map comp_def)
  qed
  moreover have "filter (\<lambda>j. j = p) [0..<len] = [p]"
  proof -
    have "filter (\<lambda>j. j = p) [0..<p] = []" by (simp add: filter_empty_conv)
    moreover have "filter (\<lambda>j. j = p) [Suc p..<len] = []" by (simp add: filter_empty_conv)
    ultimately show ?thesis by (simp add: upt_split [OF assms(1)])
  qed
  ultimately show ?thesis using False by simp
qed

lemma sum_list_one_special:
  assumes "p < len"
  shows "(\<Sum>i\<leftarrow>[0..<len]. if i = p then a else (1::nat)) = a + (len - 1)"
proof -
  have l: "(\<Sum>i\<leftarrow>[0..<p]. if i = p then a else (1::nat)) = (\<Sum>i\<leftarrow>[0..<p]. 1)"
    by (rule arg_cong [where f = sum_list], rule map_cong) auto
  have r: "(\<Sum>i\<leftarrow>[Suc p..<len]. if i = p then a else (1::nat)) = (\<Sum>i\<leftarrow>[Suc p..<len]. 1)"
    by (rule arg_cong [where f = sum_list], rule map_cong) auto
  show ?thesis
    unfolding upt_split [OF assms] using assms by (simp add: l r sum_list_triv)
qed

lemma count_pairings:
  assumes "p < len"
  shows "length (filter (\<lambda>ij. fst ij = p \<or> snd ij = p) (pairings len)) = 2 * (len - 1)"
proof -
  let ?P = "\<lambda>ij. fst ij = p \<or> snd ij = p"
  let ?row = "\<lambda>i. map (\<lambda>j. (i, j)) (filter (\<lambda>j. i \<noteq> j) [0..<len])"
  have "length (filter ?P (pairings len)) = (\<Sum>i\<leftarrow>[0..<len]. length (filter ?P (?row i)))"
    by (simp add: pairings_def filter_concat length_concat comp_def)
  also have "\<dots> = (\<Sum>i\<leftarrow>[0..<len]. if i = p then len - 1 else 1)"
  proof (rule arg_cong [where f = sum_list], rule map_cong [OF refl])
    fix i assume "i \<in> set [0..<len]"
    then have "i < len" by simp
    then show "length (filter ?P (?row i)) = (if i = p then len - 1 else 1)"
      by (rule count_row [OF assms])
  qed
  also have "\<dots> = (len - 1) + (len - 1)" by (rule sum_list_one_special [OF assms])
  finally show ?thesis by simp
qed

lemma count_schedule:
  assumes "p < len"
  shows "length (filter (\<lambda>ij. fst ij = p \<or> snd ij = p) (schedule len rounds)) = rounds * (len - 1) * 2"
  by (simp add: schedule_def filter_concat length_concat comp_def count_pairings [OF assms]
        sum_list_replicate)

lemma gamesOf_players:
  "gamesOf p results = length (filter (\<lambda>ij. fst ij = p \<or> snd ij = p) (map player results))"
  by (simp add: gamesOf_def filter_map comp_def)

lemma addSide_wellFormed:
  assumes "addSide len result i st = Inr st'" and "wellFormed len st"
  shows "wellFormed len st'"
proof -
  note a = addSide_Inr [OF assms(1)]
  from assms(2) a(1) have rows: "length (winLoss st ! get2 (player result) i) = len"
    "length (pairScore st ! get2 (player result) i) = len"
    by (simp_all add: wellFormed_def list_all_length)
  have upd: "\<And>xss k row. list_all (\<lambda>r. length r = len) xss \<Longrightarrow> length row = len
                 \<Longrightarrow> list_all (\<lambda>r. length r = len) (xss[k := row])"
    using set_update_subset_insert by (fastforce simp: list_all_iff)
  from assms(2) rows show ?thesis
    unfolding a(3) by (simp add: wellFormed_def countSide_def Let_def upd)
qed

lemma addSide_timeUsed:
  assumes "addSide len result i st = Inr st'" and "wellFormed len st" and "p < len"
  shows "timeUsed st' ! p =
           (if get2 (player result) i = p then timeUsed st ! p + get2 (time result) i
            else timeUsed st ! p)"
proof -
  note a = addSide_Inr [OF assms(1)]
  from assms(2) have "length (timeUsed st) = len" by (simp add: wellFormed_def)
  with assms(3) a(1) show ?thesis
    unfolding a(3) by (auto simp: countSide_times nth_list_update)
qed

lemma collect_wellFormed:
  assumes "collect len results st = Inr st'" and "wellFormed len st"
  shows "wellFormed len st'"
  using assms
proof (induction results arbitrary: st)
  case Nil
  then show ?case by simp
next
  case (Cons r rest)
  from Cons.prems(1) obtain st1 st2 where s1: "addSide len r 0 st = Inr st1"
    and s2: "addSide len r 1 st1 = Inr st2" and c: "collect len rest st2 = Inr st'"
    by (auto split: sum.splits)
  from addSide_wellFormed [OF s2 addSide_wellFormed [OF s1 Cons.prems(2)]] c
  show ?case by (rule Cons.IH [rotated])
qed

lemma collect_timeUsed:
  assumes "collect len results st = Inr st'" and "wellFormed len st" and "p < len"
  shows "timeUsed st' ! p = cumTime (timeUsed st ! p) p results"
  using assms(1,2)
proof (induction results arbitrary: st)
  case Nil
  then show ?case by (simp add: cumTime_def timesOf_def)
next
  case (Cons r rest)
  from Cons.prems(1) obtain st1 st2 where s1: "addSide len r 0 st = Inr st1"
    and s2: "addSide len r 1 st1 = Inr st2" and c: "collect len rest st2 = Inr st'"
    by (auto split: sum.splits)
  note w1 = addSide_wellFormed [OF s1 Cons.prems(2)]
  note w2 = addSide_wellFormed [OF s2 w1]
  have "timeUsed st' ! p = cumTime (timeUsed st2 ! p) p rest"
    using c w2 by (rule Cons.IH)
  also have "timeUsed st2 ! p =
      (if snd (player r) = p then timeUsed st1 ! p + snd (time r) else timeUsed st1 ! p)"
    using addSide_timeUsed [OF s2 w1 assms(3)] by (simp add: get2_def)
  also have "timeUsed st1 ! p =
      (if fst (player r) = p then timeUsed st ! p + fst (time r) else timeUsed st ! p)"
    using addSide_timeUsed [OF s1 Cons.prems(2) assms(3)] by (simp add: get2_def)
  finally show ?case by (simp add: cumTime_def timesOf_def)
qed

lemma initStats_timeUsed: "p < len \<Longrightarrow> timeUsed (initStats len) ! p = 0"
  by (simp add: initStats_def)

lemma addSide_totalPoints:
  assumes "addSide len result i st = Inr st'" and "wellFormed len st" and "p < len"
  shows "totalPoints st' ! p =
           (if get2 (player result) i = p then totalPoints st ! p + get2 (points result) i
            else totalPoints st ! p)"
proof -
  note a = addSide_Inr [OF assms(1)]
  from assms(2) have "length (totalPoints st) = len" by (simp add: wellFormed_def)
  with assms(3) a(1) show ?thesis
    unfolding a(3) by (auto simp: countSide_counts nth_list_update)
qed

lemma collect_totalPoints:
  assumes "collect len results st = Inr st'" and "wellFormed len st" and "p < len"
  shows "totalPoints st' ! p = totalPoints st ! p + sum_list (pointsOf p results)"
  using assms(1,2)
proof (induction results arbitrary: st)
  case Nil
  then show ?case by (simp add: pointsOf_def)
next
  case (Cons r rest)
  from Cons.prems(1) obtain st1 st2 where s1: "addSide len r 0 st = Inr st1"
    and s2: "addSide len r 1 st1 = Inr st2" and c: "collect len rest st2 = Inr st'"
    by (auto split: sum.splits)
  note w1 = addSide_wellFormed [OF s1 Cons.prems(2)]
  note w2 = addSide_wellFormed [OF s2 w1]
  have "totalPoints st' ! p = totalPoints st2 ! p + sum_list (pointsOf p rest)"
    using c w2 by (rule Cons.IH)
  also have "totalPoints st2 ! p =
      (if snd (player r) = p then totalPoints st1 ! p + snd (points r) else totalPoints st1 ! p)"
    using addSide_totalPoints [OF s2 w1 assms(3)] by (simp add: get2_def)
  also have "totalPoints st1 ! p =
      (if fst (player r) = p then totalPoints st ! p + fst (points r) else totalPoints st ! p)"
    using addSide_totalPoints [OF s1 Cons.prems(2) assms(3)] by (simp add: get2_def)
  finally show ?case by (simp add: pointsOf_def)
qed

lemma initStats_totalPoints: "p < len \<Longrightarrow> totalPoints (initStats len) ! p = 0"
  by (simp add: initStats_def)

lemma schedule_bounds:
  assumes "ij \<in> set (schedule len rounds)"
  shows "fst ij < len \<and> snd ij < len"
  using assms by (auto simp: schedule_def pairings_def split: if_splits)

lemma tournament_players:
  assumes "runTournament eng maxLen worlds msgPath players rounds single = Some (Inr results)"
    and "2 \<le> length players" and "1 \<le> rounds"
  shows "\<forall>r \<in> set results. fst (player r) < length players \<and> snd (player r) < length players"
proof
  fix r assume r: "r \<in> set results"
  have "set (map player results) \<subseteq> set (schedule (length players) (nat rounds))"
  proof (cases single)
    case True
    with assms(1) have "runTournament eng maxLen worlds msgPath players rounds True = Some (Inr results)"
      by simp
    from runTournament_single [OF this assms(2,3)]
    have "map player results = take 1 (schedule (length players) (nat rounds))" by blast
    then show ?thesis by (simp add: set_take_subset)
  next
    case False
    with assms(1) have "runTournament eng maxLen worlds msgPath players rounds False = Some (Inr results)"
      by simp
    from runTournament_all [OF this assms(2,3)] show ?thesis by simp
  qed
  with r have "player r \<in> set (schedule (length players) (nat rounds))" by auto
  then show "fst (player r) < length players \<and> snd (player r) < length players"
    by (rule schedule_bounds)
qed

lemma collect_total:
  assumes "\<forall>r \<in> set results. fst (player r) < len \<and> snd (player r) < len"
  shows "\<exists>st'. collect len results st = Inr st'"
  using assms
  by (induction results arbitrary: st) (simp_all add: addSide_def get2_def)

lemma main_report:
  fixes float64 :: "int \<Rightarrow> ('t::{zero,plus,ord,inverse})"
  assumes "runTournament eng maxLen worlds msgPath players rounds single = Some (Inr results)"
    and "2 \<le> length players" and "1 \<le> rounds" and "single \<longrightarrow> length players = 2 \<and> rounds = 1"
  shows "\<exists>st. collect (length players) results (initStats (length players)) = Inr st
           \<and> main float64 eng maxLen worlds msgPath quiet single rounds players =
               Some (Inr (if quiet
                  then Brief (briefLines float64 (length players) st
                                (numGames (length players) rounds single))
                  else Verbose (rankingRows float64 (length players) st
                                  (numGames (length players) rounds single))
                         (if length players > 2 then Some (winMatrix (length players) st)
                          else None)))"
proof -
  from collect_total [OF tournament_players [OF assms(1,2,3)]] obtain st :: "'t stats"
    where col: "collect (length players) results (initStats (length players)) = Inr st" by blast
  from assms(2,3,4) have "\<not> length players < 2" "\<not> rounds < 1"
    "\<not> (single \<and> (length players > 2 \<or> rounds > 1))" by auto
  then have "main float64 eng maxLen worlds msgPath quiet single rounds players =
               Some (Inr (if quiet
                  then Brief (briefLines float64 (length players) st
                                (numGames (length players) rounds single))
                  else Verbose (rankingRows float64 (length players) st
                                  (numGames (length players) rounds single))
                         (if length players > 2 then Some (winMatrix (length players) st)
                          else None)))"
    unfolding main_def by (simp only: if_False assms(1) col option.case sum.case) simp
  with col show ?thesis by blast
qed

lemma main_Brief:
  assumes "main float64 eng maxLen worlds msgPath True single rounds players = Some (Inr (Brief lines))"
  shows "2 \<le> length players \<and> 1 \<le> rounds \<and> (single \<longrightarrow> length players = 2 \<and> rounds = 1)
       \<and> (\<exists>results st. runTournament eng maxLen worlds msgPath players rounds single = Some (Inr results)
              \<and> collect (length players) results (initStats (length players)) = Inr st
              \<and> lines = briefLines float64 (length players) st (numGames (length players) rounds single))"
  using assms
  by (auto simp: main_def split: if_splits option.splits sum.splits)

lemma main_Verbose:
  assumes "main float64 eng maxLen worlds msgPath False single rounds players = Some (Inr (Verbose rows m))"
  shows "2 \<le> length players \<and> 1 \<le> rounds \<and> (single \<longrightarrow> length players = 2 \<and> rounds = 1)
       \<and> (\<exists>results st. runTournament eng maxLen worlds msgPath players rounds single = Some (Inr results)
              \<and> collect (length players) results (initStats (length players)) = Inr st
              \<and> rows = rankingRows float64 (length players) st (numGames (length players) rounds single))"
  using assms
  by (auto simp: main_def split: if_splits option.splits sum.splits)

lemma numGames_small:
  assumes "2 \<le> len" and "1 \<le> rounds" and "rounds * int len * (int len - 1) < 2 ^ 63"
  shows "numGames len rounds False = int (nat rounds * (len - 1) * 2)"
proof -
  let ?x = "rounds * (int len - 1) * 2"
  from assms(1,2) have nn: "0 \<le> rounds * (int len - 1)" by simp
  from assms(1) have "(2::int) \<le> int len" by simp
  from this nn have "rounds * (int len - 1) * 2 \<le> rounds * (int len - 1) * int len"
    by (rule mult_left_mono)
  also have "\<dots> = rounds * int len * (int len - 1)" by (simp add: mult.assoc mult.commute)
  finally have "?x < 2 ^ 63" using assms(3) by (rule le_less_trans)
  moreover from nn have "0 \<le> ?x" by simp
  then have "- (2 ^ 63) \<le> ?x" by (rule order_trans [rotated]) simp
  ultimately have "wrap64 ?x = ?x" by (rule wrap64_id [rotated])
  moreover from assms(1,2) have "int (nat rounds * (len - 1) * 2) = ?x"
    by (simp add: of_nat_diff)
  ultimately show ?thesis by (simp add: numGames_all)
qed

lemma gamesOf_tournament:
  assumes "runTournament eng maxLen worlds msgPath players rounds single = Some (Inr results)"
    and "2 \<le> length players" and "1 \<le> rounds" and "single \<longrightarrow> length players = 2 \<and> rounds = 1"
    and "p < length players"
  shows "gamesOf p results = (if single then 1 else nat rounds * (length players - 1) * 2)"
    and "numGames (length players) rounds single = int (gamesOf p results)"
proof -
  have "gamesOf p results = (if single then 1 else nat rounds * (length players - 1) * 2)
      \<and> numGames (length players) rounds single = int (gamesOf p results)"
  proof (cases single)
    case True
    with assms(1) have run: "runTournament eng maxLen worlds msgPath players rounds True = Some (Inr results)"
      by simp
    from runTournament_single [OF run assms(2,3)] schedule_first [of "length players" "nat rounds"] assms(2,3)
    have "map player results = [(0, 1)]" by simp
    moreover from True assms(4,5) have "p = 0 \<or> p = 1" by auto
    ultimately have "gamesOf p results = 1" by (auto simp: gamesOf_players)
    with True show ?thesis by (simp add: numGames_def)
  next
    case False
    with assms(1) have run: "runTournament eng maxLen worlds msgPath players rounds False = Some (Inr results)"
      by simp
    note a = runTournament_all [OF run assms(2,3)]
    from a have "gamesOf p results = nat rounds * (length players - 1) * 2"
      by (simp add: gamesOf_players count_schedule [OF assms(5)])
    moreover from a have "rounds * int (length players) * (int (length players) - 1) < 2 ^ 63"
      by blast
    note numGames_small [OF assms(2,3) this]
    ultimately show ?thesis using False by simp
  qed
  then show "gamesOf p results = (if single then 1 else nat rounds * (length players - 1) * 2)"
    and "numGames (length players) rounds single = int (gamesOf p results)" by blast+
qed


subsection \<open>The verbose ranking\<close>

text \<open>
  C7.  A run of \<^verbatim>\<open>main\<close> that is not quiet, with valid arguments and a tournament that
  returns, ends with the verbose report; and in every verbose report of \<^verbatim>\<open>main\<close> the
  rows of the ranking are numbered from 1 and list the players in the order \<open>ranking\<close>
  of the total points that lines 367-391 collected from the results of the tournament
  (for each player the sum of its competition points).  Lines 403-408 compute that order
  by building the pairs (total points, negated index), sorting them ascending and
  reversing.  It lists every player once; of two players the one listed first has more
  total points, or the same points and the smaller index; and it is the stable sort of
  the original player order by descending total points.  The last five statements say the
  same of \<open>rankingRows\<close> and \<open>ranking\<close> for any number of players and any points.
\<close>

theorem ranking_order:
  fixes float64 :: "int \<Rightarrow> ('t::{zero,plus,ord,inverse})"
  shows "(\<forall>results. runTournament eng maxLen worlds msgPath players rounds single = Some (Inr results)
             \<and> 2 \<le> length players \<and> 1 \<le> rounds \<and> (single \<longrightarrow> length players = 2 \<and> rounds = 1) \<longrightarrow>
             (\<exists>rows m. main float64 eng maxLen worlds msgPath False single rounds players
                          = Some (Inr (Verbose rows m))))
       \<and> (\<forall>rows m. main float64 eng maxLen worlds msgPath False single rounds players
                          = Some (Inr (Verbose rows m)) \<longrightarrow>
             (\<exists>results st.
                 runTournament eng maxLen worlds msgPath players rounds single = Some (Inr results)
               \<and> collect (length players) results (initStats (length players)) = Inr st
               \<and> (\<forall>p < length players. totalPoints st ! p = sum_list (pointsOf p results))
               \<and> map fst rows = [1..<length players + 1]
               \<and> map (\<lambda>row. fst (snd row)) rows = ranking (length players) (totalPoints st)
               \<and> mset (map (\<lambda>row. fst (snd row)) rows) = mset [0..<length players]
               \<and> sorted_wrt (\<lambda>a b. totalPoints st ! a > totalPoints st ! b
                                  \<or> (totalPoints st ! a = totalPoints st ! b \<and> a < b))
                    (map (\<lambda>row. fst (snd row)) rows)
               \<and> map (\<lambda>row. fst (snd row)) rows = rankSpec (length players) (totalPoints st)))
       \<and> map (\<lambda>row. fst (snd row)) (rankingRows float64 len st g) = ranking len (totalPoints st)
       \<and> map fst (rankingRows float64 len st g) = [1..<len + 1]
       \<and> mset (ranking len tp) = mset [0..<len]
       \<and> sorted_wrt (\<lambda>a b. tp ! a > tp ! b \<or> (tp ! a = tp ! b \<and> a < b)) (ranking len tp)
       \<and> ranking len tp = rankSpec len tp"
proof -
  have A: "\<exists>rows m. main float64 eng maxLen worlds msgPath False single rounds players
                          = Some (Inr (Verbose rows m))"
    if "runTournament eng maxLen worlds msgPath players rounds single = Some (Inr results)
             \<and> 2 \<le> length players \<and> 1 \<le> rounds \<and> (single \<longrightarrow> length players = 2 \<and> rounds = 1)"
    for results
  proof -
    from that have run: "runTournament eng maxLen worlds msgPath players rounds single = Some (Inr results)"
      and v: "2 \<le> length players" "1 \<le> rounds" "single \<longrightarrow> length players = 2 \<and> rounds = 1"
      by blast+
    from main_report [OF run v, of float64 False] show ?thesis by auto
  qed
  have B: "\<exists>results st.
                 runTournament eng maxLen worlds msgPath players rounds single = Some (Inr results)
               \<and> collect (length players) results (initStats (length players)) = Inr st
               \<and> (\<forall>p < length players. totalPoints st ! p = sum_list (pointsOf p results))
               \<and> map fst rows = [1..<length players + 1]
               \<and> map (\<lambda>row. fst (snd row)) rows = ranking (length players) (totalPoints st)
               \<and> mset (map (\<lambda>row. fst (snd row)) rows) = mset [0..<length players]
               \<and> sorted_wrt (\<lambda>a b. totalPoints st ! a > totalPoints st ! b
                                  \<or> (totalPoints st ! a = totalPoints st ! b \<and> a < b))
                    (map (\<lambda>row. fst (snd row)) rows)
               \<and> map (\<lambda>row. fst (snd row)) rows = rankSpec (length players) (totalPoints st)"
    if m: "main float64 eng maxLen worlds msgPath False single rounds players
                          = Some (Inr (Verbose rows m))"
    for rows m
  proof -
    from main_Verbose [OF m] obtain results and st :: "'t stats" where
      run: "runTournament eng maxLen worlds msgPath players rounds single = Some (Inr results)"
      and col: "collect (length players) results (initStats (length players)) = Inr st"
      and rows: "rows = rankingRows float64 (length players) st (numGames (length players) rounds single)"
      by blast
    have pts: "\<forall>p < length players. totalPoints st ! p = sum_list (pointsOf p results)"
      using collect_totalPoints [OF col wellFormed_initStats] by (simp add: initStats_totalPoints)
    have pl: "map (\<lambda>row. fst (snd row)) rows = ranking (length players) (totalPoints st)"
      unfolding rows by (rule rankingRows_players)
    have no: "map fst rows = [1..<length players + 1]"
      unfolding rows by (rule rankingRows_ranks)
    from run col pts no pl show ?thesis
      unfolding pl using ranking_mset ranking_sorted ranking_rankSpec by blast
  qed
  from A B rankingRows_players rankingRows_ranks ranking_mset ranking_sorted ranking_rankSpec
  show ?thesis by blast
qed

text \<open>
  A tournament of two players in which the second player ends with more points than the
  first: it is listed first.
\<close>

lemma mute_run:
  assumes "c0 = ''a'' \<or> c0 = ''b''" and "c1 = ''a'' \<or> c1 = ''b''"
  shows "runMatch toy muteWorld pl (c0, c1) ('''', '''') =
     Some (Inr (\<lparr>player = pl, score = (1, 2), failed = (False, True), points = (1, 0),
                  time = (1, 0)\<rparr>,
        [Spawn 0 True, Write 0 ''Start'' True, Spawn 1 True, Read 0 (Some ''1\<newline>''),
         Write 1 ''1'' False, Intn 2 1,
         Write 0 ''Quit'' True, Close 0, Write 1 ''Quit'' False, Close 1,
         Wait 0, Wait 1]))"
  using assms by (auto simp: eval_defs turnLoop.simps muteWorld_def fairWorld_def)

lemma uneven_tournament:
  "runTournament toy amd64MaxLen unevenWorlds '''' [''a'', ''b''] 1 False =
     Some (Inr [\<lparr>player = (0, 1), score = (1, 2), failed = (False, False), points = (1, 2), time = (1, 1)\<rparr>,
                \<lparr>player = (1, 0), score = (1, 2), failed = (False, True), points = (1, 0), time = (1, 0)\<rparr>])"
  by (simp add: runTournament_def numResults_def wrap64_def playPair_def fair_run mute_run
        unevenWorlds_def msgFilePath_def zeroResult_def upt_rec numeral_2_eq_2 amd64MaxLen_value)

lemma uneven_collect:
  "collect 2 [\<lparr>player = (0, 1), score = (1, 2), failed = (False, False), points = (1, 2), time = (1, 1)\<rparr>,
              \<lparr>player = (1, 0), score = (1, 2), failed = (False, True), points = (1, 0), time = (1, 0)\<rparr>]
     (initStats 2) =
   Inr \<lparr>totalPoints = [1, 3], gamesWon = [1, 1], gamesTied = [0, 0], gamesLost = [1, 1],
        gamesFailed = [1, 0], timeUsed = [1 :: real, 2], timeMax = [1, 1],
        winLoss = [[0, 1], [1, 0]], pairScore = [[0, 3], [3, 0]]\<rparr>"
  by (simp add: addSide_def countSide_def initStats_def get2_def wrap64_def numeral_2_eq_2 Let_def)

lemma ranking_uneven: "ranking 2 [1, 3] = [1, 0]"
  by (simp add: ranking_def pointsPlayers_rev sortSort_def lessPair_def upt_rec numeral_2_eq_2)

lemma uneven_main:
  "main real_of_int toy amd64MaxLen unevenWorlds '''' False False 1 [''a'', ''b''] =
     Some (Inr (Verbose [(1, 1, [D 3, D 1, D 0, D 1, D 0, F 1, F 1]),
                         (2, 0, [D 1, D 1, D 0, D 1, D 1, F (1 / 2), F 1])] None))"
proof -
  have len: "length [''a'', ''b''] = 2" by simp
  show ?thesis
    unfolding main_def len
    by (simp add: uneven_tournament uneven_collect rankingRows_def ranking_uneven statFields_def
          numGames_def wrap64_def del: collect.simps One_nat_def)
qed

theorem ranking_order_witness:
  "main real_of_int toy amd64MaxLen unevenWorlds '''' False False 1 [''a'', ''b''] =
     Some (Inr (Verbose [(1, 1, [D 3, D 1, D 0, D 1, D 0, F 1, F 1]),
                         (2, 0, [D 1, D 1, D 0, D 1, D 1, F (1 / 2), F 1])] None))
   \<and> (\<exists>results st. runTournament toy amd64MaxLen unevenWorlds '''' [''a'', ''b''] 1 False = Some (Inr results)
          \<and> collect 2 results (initStats 2) = Inr st
          \<and> totalPoints st ! 0 = sum_list (pointsOf 0 results)
          \<and> totalPoints st ! 1 = sum_list (pointsOf 1 results)
          \<and> [1, 0] = ranking 2 (totalPoints st) \<and> [1, 0] = rankSpec 2 (totalPoints st))
   \<and> ranking 3 [3, 5, 3] = [1, 0, 2] \<and> rankSpec 3 [3, 5, 3] = [1, 0, 2]"
proof -
  have len: "length [''a'', ''b''] = 2" by simp
  note t = ranking_order [where eng = toy and maxLen = amd64MaxLen and worlds = unevenWorlds
      and msgPath = "''''" and players = "[''a'', ''b'']" and rounds = 1 and single = False
      and ?float64.0 = real_of_int and len = 3 and tp = "[3, 5, 3]"]
  from t have "ranking 3 [3, 5, 3] = rankSpec 3 [3, 5, 3]" by blast
  from this [symmetric] ranking_example
  have C: "ranking 3 [3, 5, 3] = [1, 0, 2] \<and> rankSpec 3 [3, 5, 3] = [1, 0, 2]" by (simp only:)
  have valid: "runTournament toy amd64MaxLen unevenWorlds '''' [''a'', ''b''] 1 False =
        Some (Inr [\<lparr>player = (0, 1), score = (1, 2), failed = (False, False), points = (1, 2), time = (1, 1)\<rparr>,
                \<lparr>player = (1, 0), score = (1, 2), failed = (False, True), points = (1, 0), time = (1, 0)\<rparr>])
      \<and> 2 \<le> length [''a'', ''b''] \<and> (1::int) \<le> 1 \<and> (False \<longrightarrow> length [''a'', ''b''] = 2 \<and> (1::int) = 1)"
    using uneven_tournament by simp
  from t [THEN conjunct1, rule_format, OF valid] obtain rows m where
    "main real_of_int toy amd64MaxLen unevenWorlds '''' False False 1 [''a'', ''b'']
       = Some (Inr (Verbose rows m))" by blast
  from t [THEN conjunct2, THEN conjunct1, rule_format, OF uneven_main]
  obtain results and st :: "real stats" where
    run: "runTournament toy amd64MaxLen unevenWorlds '''' [''a'', ''b''] 1 False = Some (Inr results)"
    and col: "collect (length [''a'', ''b'']) results (initStats (length [''a'', ''b''])) = Inr st"
    and pts: "\<forall>p < length [''a'', ''b'']. totalPoints st ! p = sum_list (pointsOf p results)"
    and rk: "map (\<lambda>row. fst (snd row)) [(1::nat, 1::nat, [D 3, D 1, D 0, D 1, D 0, F (1::real), F 1]),
                         (2, 0, [D 1, D 1, D 0, D 1, D 1, F (1 / 2), F 1])]
               = ranking (length [''a'', ''b'']) (totalPoints st)"
    and sp: "map (\<lambda>row. fst (snd row)) [(1::nat, 1::nat, [D 3, D 1, D 0, D 1, D 0, F (1::real), F 1]),
                         (2, 0, [D 1, D 1, D 0, D 1, D 1, F (1 / 2), F 1])]
               = rankSpec (length [''a'', ''b'']) (totalPoints st)"
    by blast
  from col have col2: "collect 2 results (initStats 2) = Inr st" unfolding len .
  from pts have p0: "totalPoints st ! 0 = sum_list (pointsOf 0 results)"
    and p1: "totalPoints st ! 1 = sum_list (pointsOf 1 results)" by simp_all
  from rk have rk2: "[1, 0] = ranking 2 (totalPoints st)" unfolding len by simp
  from sp have sp2: "[1, 0] = rankSpec 2 (totalPoints st)" unfolding len by simp
  from run col2 p0 p1 rk2 sp2 have B: "\<exists>results st. runTournament toy amd64MaxLen unevenWorlds '''' [''a'', ''b''] 1 False = Some (Inr results)
          \<and> collect 2 results (initStats 2) = Inr st
          \<and> totalPoints st ! 0 = sum_list (pointsOf 0 results)
          \<and> totalPoints st ! 1 = sum_list (pointsOf 1 results)
          \<and> [1, 0] = ranking 2 (totalPoints st) \<and> [1, 0] = rankSpec 2 (totalPoints st)"
    by (intro exI [of _ results] exI [of _ st] conjI)
  from uneven_main B C show ?thesis by (intro conjI) blast+
qed

subsection \<open>The brief results\<close>

text \<open>
  C8.  A quiet run of \<^verbatim>\<open>main\<close> with valid arguments and a tournament that returns
  prints the brief results, one line per player.  In every brief report of \<^verbatim>\<open>main\<close>,
  line \<open>p\<close> is the line of player \<open>p\<close> of the player list, and the values of a line
  are, from left to right: total points, games won, tied, lost, failed, average time,
  maximum time.  The average time is \<^verbatim>\<open>timeUsed[p]\<close>, the sum of the player's times over
  all results, divided by the number of games of the tournament in which the player took
  part, which is \<open>r \<sqdot> (n - 1) \<sqdot> 2\<close>, and 1 in single mode.  (Addition and division
  are those of \<^verbatim>\<open>float64\<close>, whatever they compute.)
\<close>

theorem quiet_report:
  fixes float64 :: "int \<Rightarrow> ('t::{zero,plus,ord,inverse})"
  shows "(\<forall>results. runTournament eng maxLen worlds msgPath players rounds single = Some (Inr results)
             \<and> 2 \<le> length players \<and> 1 \<le> rounds \<and> (single \<longrightarrow> length players = 2 \<and> rounds = 1) \<longrightarrow>
             (\<exists>lines. main float64 eng maxLen worlds msgPath True single rounds players
                          = Some (Inr (Brief lines))
                     \<and> length lines = length players))
       \<and> (\<forall>lines. main float64 eng maxLen worlds msgPath True single rounds players
                          = Some (Inr (Brief lines)) \<longrightarrow>
           (\<exists>results st.
               runTournament eng maxLen worlds msgPath players rounds single = Some (Inr results)
             \<and> collect (length players) results (initStats (length players)) = Inr st
             \<and> length lines = length players
             \<and> (\<forall>p < length players.
                   gamesOf p results = (if single then 1 else nat rounds * (length players - 1) * 2)
                 \<and> timeUsed st ! p = cumTime 0 p results
                 \<and> lines ! p =
                     [D (totalPoints st ! p), D (gamesWon st ! p), D (gamesTied st ! p),
                      D (gamesLost st ! p), D (gamesFailed st ! p),
                      F (timeUsed st ! p / float64 (int (gamesOf p results))), F (timeMax st ! p)])))"
proof (intro conjI allI impI)
  fix results
  assume "runTournament eng maxLen worlds msgPath players rounds single = Some (Inr results)
             \<and> 2 \<le> length players \<and> 1 \<le> rounds \<and> (single \<longrightarrow> length players = 2 \<and> rounds = 1)"
  then have run: "runTournament eng maxLen worlds msgPath players rounds single = Some (Inr results)"
    and v: "2 \<le> length players" "1 \<le> rounds" "single \<longrightarrow> length players = 2 \<and> rounds = 1"
    by blast+
  from main_report [OF run v, of float64 True]
  show "\<exists>lines. main float64 eng maxLen worlds msgPath True single rounds players
                          = Some (Inr (Brief lines))
                     \<and> length lines = length players"
    by (auto simp: briefLines_def)
next
  fix lines
  assume m: "main float64 eng maxLen worlds msgPath True single rounds players = Some (Inr (Brief lines))"
  from main_Brief [OF m] obtain results and st :: "'t stats" where
    n2: "2 \<le> length players" and r1: "1 \<le> rounds"
    and sg: "single \<longrightarrow> length players = 2 \<and> rounds = 1"
    and run: "runTournament eng maxLen worlds msgPath players rounds single = Some (Inr results)"
    and col: "collect (length players) results (initStats (length players)) = Inr st"
    and lines: "lines = briefLines float64 (length players) st (numGames (length players) rounds single)"
    by blast
  have len: "length lines = length players" by (simp add: lines briefLines_def)
  have each: "gamesOf p results = (if single then 1 else nat rounds * (length players - 1) * 2)
             \<and> timeUsed st ! p = cumTime 0 p results
             \<and> lines ! p =
                 [D (totalPoints st ! p), D (gamesWon st ! p), D (gamesTied st ! p),
                  D (gamesLost st ! p), D (gamesFailed st ! p),
                  F (timeUsed st ! p / float64 (int (gamesOf p results))), F (timeMax st ! p)]"
    if p: "p < length players" for p
  proof -
    note g = gamesOf_tournament [OF run n2 r1 sg p]
    have t: "timeUsed st ! p = cumTime 0 p results"
      using collect_timeUsed [OF col wellFormed_initStats p] by (simp add: initStats_timeUsed [OF p])
    have "lines ! p = statFields float64 st (numGames (length players) rounds single) p"
      using p by (simp add: lines briefLines_def)
    with g t show ?thesis by (simp add: statFields_def)
  qed
  from run col len each show "\<exists>results st.
               runTournament eng maxLen worlds msgPath players rounds single = Some (Inr results)
             \<and> collect (length players) results (initStats (length players)) = Inr st
             \<and> length lines = length players
             \<and> (\<forall>p < length players.
                   gamesOf p results = (if single then 1 else nat rounds * (length players - 1) * 2)
                 \<and> timeUsed st ! p = cumTime 0 p results
                 \<and> lines ! p =
                     [D (totalPoints st ! p), D (gamesWon st ! p), D (gamesTied st ! p),
                      D (gamesLost st ! p), D (gamesFailed st ! p),
                      F (timeUsed st ! p / float64 (int (gamesOf p results))), F (timeMax st ! p)])"
    by blast
qed

lemma fair_tournament:
  "runTournament toy amd64MaxLen fairWorlds '''' [''a'', ''b''] 1 False =
     Some (Inr [\<lparr>player = (0, 1), score = (1, 2), failed = (False, False), points = (1, 2), time = (1, 1)\<rparr>,
                \<lparr>player = (1, 0), score = (1, 2), failed = (False, False), points = (1, 2), time = (1, 1)\<rparr>])"
  by (simp add: runTournament_def numResults_def wrap64_def playPair_def fair_run msgFilePath_def
        fairWorlds_def zeroResult_def upt_rec numeral_2_eq_2 amd64MaxLen_value)

lemma fair_collect:
  "collect 2 [\<lparr>player = (0, 1), score = (1, 2), failed = (False, False), points = (1, 2), time = (1, 1)\<rparr>,
              \<lparr>player = (1, 0), score = (1, 2), failed = (False, False), points = (1, 2), time = (1, 1)\<rparr>]
     (initStats 2) =
   Inr \<lparr>totalPoints = [3, 3], gamesWon = [1, 1], gamesTied = [0, 0], gamesLost = [1, 1],
        gamesFailed = [0, 0], timeUsed = [2 :: real, 2], timeMax = [1, 1],
        winLoss = [[0, 1], [1, 0]], pairScore = [[0, 3], [3, 0]]\<rparr>"
  by (simp add: addSide_def countSide_def initStats_def get2_def wrap64_def numeral_2_eq_2 Let_def)

lemma fair_main:
  "main real_of_int toy amd64MaxLen fairWorlds '''' True False 1 [''a'', ''b''] =
     Some (Inr (Brief [[D 3, D 1, D 0, D 1, D 0, F 1, F 1], [D 3, D 1, D 0, D 1, D 0, F 1, F 1]]))"
proof -
  have len: "length [''a'', ''b''] = 2" by simp
  show ?thesis
    unfolding main_def len
    by (simp add: fair_tournament fair_collect briefLines_def statFields_def numGames_def
          wrap64_def upt_rec del: collect.simps One_nat_def)
qed

theorem quiet_report_witness:
  "main real_of_int toy amd64MaxLen fairWorlds '''' True False 1 [''a'', ''b''] =
     Some (Inr (Brief [[D 3, D 1, D 0, D 1, D 0, F 1, F 1], [D 3, D 1, D 0, D 1, D 0, F 1, F 1]]))
   \<and> (\<exists>lines. main real_of_int toy amd64MaxLen fairWorlds '''' True False 1 [''a'', ''b'']
                 = Some (Inr (Brief lines)) \<and> length lines = 2)
   \<and> (\<exists>results st. runTournament toy amd64MaxLen fairWorlds '''' [''a'', ''b''] 1 False = Some (Inr results)
          \<and> collect 2 results (initStats 2) = Inr st
          \<and> gamesOf 0 results = 2 \<and> gamesOf 1 results = 2
          \<and> [D 3, D 1, D 0, D 1, D 0, F 1, F 1] =
               [D (totalPoints st ! 0), D (gamesWon st ! 0), D (gamesTied st ! 0),
                D (gamesLost st ! 0), D (gamesFailed st ! 0),
                F (timeUsed st ! 0 / real_of_int 2), F (timeMax st ! 0)])"
proof -
  have len: "length [''a'', ''b''] = 2" by simp
  note t = quiet_report [where eng = toy and maxLen = amd64MaxLen and worlds = fairWorlds
      and msgPath = "''''" and players = "[''a'', ''b'']" and rounds = 1 and single = False
      and ?float64.0 = real_of_int]
  have valid: "runTournament toy amd64MaxLen fairWorlds '''' [''a'', ''b''] 1 False =
        Some (Inr [\<lparr>player = (0, 1), score = (1, 2), failed = (False, False), points = (1, 2), time = (1, 1)\<rparr>,
                \<lparr>player = (1, 0), score = (1, 2), failed = (False, False), points = (1, 2), time = (1, 1)\<rparr>])
      \<and> 2 \<le> length [''a'', ''b''] \<and> (1::int) \<le> 1 \<and> (False \<longrightarrow> length [''a'', ''b''] = 2 \<and> (1::int) = 1)"
    using fair_tournament by simp
  from t [THEN conjunct1, rule_format, OF valid]
  have A: "\<exists>lines. main real_of_int toy amd64MaxLen fairWorlds '''' True False 1 [''a'', ''b'']
                 = Some (Inr (Brief lines)) \<and> length lines = 2"
    unfolding len .
  from t [THEN conjunct2, rule_format, OF fair_main] obtain results and st :: "real stats" where
    run: "runTournament toy amd64MaxLen fairWorlds '''' [''a'', ''b''] 1 False = Some (Inr results)"
    and col: "collect (length [''a'', ''b'']) results (initStats (length [''a'', ''b''])) = Inr st"
    and each: "\<forall>p < length [''a'', ''b''].
               gamesOf p results = (if False then 1 else nat 1 * (length [''a'', ''b''] - 1) * 2)
             \<and> timeUsed st ! p = cumTime 0 p results
             \<and> [[D 3, D 1, D 0, D 1, D 0, F 1, F 1], [D 3, D 1, D 0, D 1, D 0, F 1, F 1]] ! p =
                 [D (totalPoints st ! p), D (gamesWon st ! p), D (gamesTied st ! p),
                  D (gamesLost st ! p), D (gamesFailed st ! p),
                  F (timeUsed st ! p / real_of_int (int (gamesOf p results))), F (timeMax st ! p)]"
    by blast
  from each [rule_format, of 0] have g0: "gamesOf 0 results = 2"
    and l0: "[D 3, D 1, D 0, D 1, D 0, F 1, F 1] =
               [D (totalPoints st ! 0), D (gamesWon st ! 0), D (gamesTied st ! 0),
                D (gamesLost st ! 0), D (gamesFailed st ! 0),
                F (timeUsed st ! 0 / real_of_int 2), F (timeMax st ! 0)]"
    by simp_all
  from each [rule_format, of 1] have g1: "gamesOf 1 results = 2" by simp
  from col have col2: "collect 2 results (initStats 2) = Inr st" unfolding len .
  from run col2 g0 g1 l0 have "\<exists>results st. runTournament toy amd64MaxLen fairWorlds '''' [''a'', ''b''] 1 False = Some (Inr results)
          \<and> collect 2 results (initStats 2) = Inr st
          \<and> gamesOf 0 results = 2 \<and> gamesOf 1 results = 2
          \<and> [D 3, D 1, D 0, D 1, D 0, F 1, F 1] =
               [D (totalPoints st ! 0), D (gamesWon st ! 0), D (gamesTied st ! 0),
                D (gamesLost st ! 0), D (gamesFailed st ! 0),
                F (timeUsed st ! 0 / real_of_int 2), F (timeMax st ! 0)]"
    by (intro exI [of _ results] exI [of _ st] conjI)
  with fair_main A show ?thesis by (intro conjI)
qed

end
